theory Spec2Isabelle
  imports
    Main
    "HOL-Library.Word"
    "HOL-Library.Char_ord"
    "HOL-Library.List_Lexorder"
    "HOL-Library.Product_Lexorder"
begin

unbundle bit_operations_syntax

section \<open>Machine integers, addresses and raw memory\<close>

text \<open>
  The optimizer of \<^verbatim>\<open>LinkeditOptimizer.cpp\<close> works on raw bytes: regions are moved with
  \<^verbatim>\<open>memcpy\<close>, 32-bit fields are read and written through casted pointers.  Fixed-width
  integers are words (arithmetic wraps, as for C++ unsigned integers); a pointer is
  a natural-number address (pointer arithmetic inside an object does not wrap);
  a block of memory is a function from addresses to bytes.
\<close>

type_synonym u8 = "8 word"
type_synonym u32 = "32 word"
type_synonym u64 = "64 word"
type_synonym addr = nat
type_synonym bytes = "u8 list"
type_synonym memory = "addr \<Rightarrow> u8"

text \<open>Little-endian loads and stores of \<^verbatim>\<open>uint32_t\<close> and \<^verbatim>\<open>uint64_t\<close> (all supported targets
  of the tool are little-endian).\<close>

definition read32 :: "memory \<Rightarrow> addr \<Rightarrow> u32" where
  "read32 m a =
     ucast (m a) OR push_bit 8 (ucast (m (a + 1))) OR
     push_bit 16 (ucast (m (a + 2))) OR push_bit 24 (ucast (m (a + 3)))"

definition write32 :: "memory \<Rightarrow> addr \<Rightarrow> u32 \<Rightarrow> memory" where
  "write32 m a v =
     m(a := ucast v, a + 1 := ucast (drop_bit 8 v),
       a + 2 := ucast (drop_bit 16 v), a + 3 := ucast (drop_bit 24 v))"

definition read64 :: "memory \<Rightarrow> addr \<Rightarrow> u64" where
  "read64 m a = ucast (read32 m a) OR push_bit 32 (ucast (read32 m (a + 4)))"

text \<open>\<^verbatim>\<open>memcpy(dst, src, n)\<close> from a (possibly different) block of memory, \<^verbatim>\<open>memmove\<close> inside one
  block (reads the old contents, so overlap is harmless), \<^verbatim>\<open>memset\<close>, and the copy of
  an explicit byte string.\<close>

definition memcpy :: "memory \<Rightarrow> addr \<Rightarrow> memory \<Rightarrow> addr \<Rightarrow> nat \<Rightarrow> memory" where
  "memcpy dm dst sm src n =
     (\<lambda>a. if dst \<le> a \<and> a < dst + n then sm (src + (a - dst)) else dm a)"

definition memmove :: "memory \<Rightarrow> addr \<Rightarrow> addr \<Rightarrow> nat \<Rightarrow> memory" where
  "memmove m dst src n = memcpy m dst m src n"

definition memset :: "memory \<Rightarrow> addr \<Rightarrow> u8 \<Rightarrow> nat \<Rightarrow> memory" where
  "memset m dst v n = (\<lambda>a. if dst \<le> a \<and> a < dst + n then v else m a)"

definition write_bytes :: "memory \<Rightarrow> addr \<Rightarrow> bytes \<Rightarrow> memory" where
  "write_bytes m dst bs =
     (\<lambda>a. if dst \<le> a \<and> a < dst + length bs then bs ! (a - dst) else m a)"

text \<open>A C string: the bytes from an address up to the first NUL.  The scan of \<^verbatim>\<open>strlen\<close> has
  no bound in the source; a memory without a NUL after the address makes it run
  forever, which is the value \<open>None\<close>.\<close>

partial_function (option) cstring :: "memory \<Rightarrow> addr \<Rightarrow> bytes option" where
  "cstring m a =
     (if m a = 0 then Some []
      else Option.bind (cstring m (Suc a)) (\<lambda>s. Some (m a # s)))"

section \<open>The string pool\<close>

text \<open>
  \<^verbatim>\<open>StringPool\<close> holds \<^verbatim>\<open>std::map<std::string_view, uint32_t> _pool\<close> and the running
  \<^verbatim>\<open>uint32_t _stringsLength\<close>.  The map is an association list with one entry per key
  (a new key is only stored when \<^verbatim>\<open>contains\<close> fails); keys are compared by their bytes.
\<close>

record StringPool =
  pool :: "(bytes \<times> u32) list"
  stringsLength :: u32

definition addString :: "StringPool \<Rightarrow> bytes \<Rightarrow> u32 \<times> StringPool" where
  "addString sp string =
     (case map_of (pool sp) string of
        Some index \<Rightarrow> (index, sp)
      | None \<Rightarrow>
          (let index = stringsLength sp
           in (index,
               sp\<lparr>pool := pool sp @ [(string, index)],
                  stringsLength := stringsLength sp + word_of_nat (length string) + 1\<rparr>)))"

text \<open>The constructor starts from the empty map and length 0 and adds the literal
  \<^verbatim>\<open>"\x00"\<close>, which as a C string is the empty string.\<close>

definition StringPool_empty :: StringPool where
  "StringPool_empty = \<lparr>pool = [], stringsLength = 0\<rparr>"

definition StringPool_new :: StringPool where
  "StringPool_new = snd (addString StringPool_empty [])"

text \<open>Adding a sequence of strings, one call after the other.\<close>

fun addStrings :: "StringPool \<Rightarrow> bytes list \<Rightarrow> StringPool" where
  "addStrings sp [] = sp"
| "addStrings sp (s # ss) = addStrings (snd (addString sp s)) ss"

datatype error = NullDereference | EmptyPool | UnterminatedString

text \<open>
  \<^verbatim>\<open>writeStrings\<close> collects the pairs \<^verbatim>\<open>(offset, string)\<close>, sorts them (pairs are compared
  lexicographically, offsets first), copies the characters of each string to
  \<^verbatim>\<open>dest + offset\<close> and returns the end of the last pair.  Taking \<^verbatim>\<open>*strings.rbegin()\<close> of
  an empty vector is undefined; it is the error \<open>EmptyPool\<close> here.
\<close>

fun writeStringsLoop :: "memory \<Rightarrow> addr \<Rightarrow> (u32 \<times> bytes) list \<Rightarrow> memory" where
  "writeStringsLoop m dest [] = m"
| "writeStringsLoop m dest ((off, string) # rest) =
     writeStringsLoop (write_bytes m (dest + unat off) string) dest rest"

definition writeStrings :: "StringPool \<Rightarrow> memory \<Rightarrow> addr \<Rightarrow> error + (memory \<times> u32)" where
  "writeStrings sp m dest =
     (let strings = sort (map (\<lambda>(string, off). (off, string)) (pool sp))
      in if strings = [] then Inl EmptyPool
         else (let (lastStringOff, lastString) = last strings
               in Inr (writeStringsLoop m dest strings,
                       lastStringOff + word_of_nat (length lastString) + 1)))"

text \<open>
  Two notions for stating what \<^verbatim>\<open>writeStrings\<close> returns: the number of bytes of a pool when
  every string is counted with one terminator, and the layout in which the entries,
  in the order of their insertion, follow one another from offset \<open>n\<close> with that spacing.
\<close>

definition poolBytes :: "(bytes \<times> u32) list \<Rightarrow> nat" where
  "poolBytes ps = sum_list (map (\<lambda>p. length (fst p) + 1) ps)"

fun laidOutFrom :: "nat \<Rightarrow> (bytes \<times> u32) list \<Rightarrow> bool" where
  "laidOutFrom n [] = True"
| "laidOutFrom n ((s, off) # ps) = (off = word_of_nat n \<and> laidOutFrom (n + length s + 1) ps)"

section \<open>The linkedit tracker\<close>

text \<open>
  A tracked region, \<^verbatim>\<open>LinkeditData\<close>: \<open>offset\<close> is the address of the 32-bit field of a load
  command that names the region, \<open>data\<close> the address of the region, \<open>dataSize\<close> its size.
\<close>

record LinkeditData =
  offset :: addr
  data :: addr
  dataSize :: u32

text \<open>
  The tracker keeps \<^verbatim>\<open>_header\<close> (of which it uses \<open>ncmds\<close> and \<open>sizeofcmds\<close>), \<^verbatim>\<open>_commandsStart\<close>,
  \<^verbatim>\<open>_headerSpaceAvailable\<close>, \<^verbatim>\<open>_linkeditStart\<close>, \<^verbatim>\<open>_linkeditEnd\<close> and the vector \<^verbatim>\<open>trackingData\<close>.
  The two linkedit bounds carry the prefix \<open>tracker_\<close>, since the optimizer has a member
  \<^verbatim>\<open>_linkeditStart\<close> of its own.  The bytes of the load commands and of the linkedit
  segment are the memory \<open>mem\<close> of the mapped file.
\<close>

record LinkeditTracker =
  mem :: memory
  ncmds :: u32
  sizeofcmds :: u32
  commandsStart :: addr
  headerSpaceAvailable :: u32
  tracker_linkeditStart :: addr
  tracker_linkeditEnd :: addr
  trackingData :: "LinkeditData list"

text \<open>\<^verbatim>\<open>load_command\<close> is \<^verbatim>\<open>{ uint32_t cmd; uint32_t cmdsize; }\<close>: \<open>cmdsize\<close> is read at byte 4.\<close>

definition cmdsize :: "memory \<Rightarrow> addr \<Rightarrow> u32" where
  "cmdsize m lc = read32 m (lc + 4)"

definition insertLoadCommand :: "LinkeditTracker \<Rightarrow> addr \<Rightarrow> addr \<Rightarrow> bool \<times> LinkeditTracker" where
  "insertLoadCommand t after lc =
     (if sizeofcmds t + cmdsize (mem t) lc > headerSpaceAvailable t then (False, t)
      else
        (let shiftDelta = unat (cmdsize (mem t) lc);
             shiftStart = after + unat (cmdsize (mem t) after);
             shiftEnd = commandsStart t + unat (sizeofcmds t);
             m1 = memmove (mem t) (shiftStart + shiftDelta) shiftStart (shiftEnd - shiftStart);
             m2 = memcpy m1 shiftStart m1 lc (unat (cmdsize m1 lc))
         in (True,
             t\<lparr>mem := m2,
               trackingData :=
                 map (\<lambda>ptrPair. if offset ptrPair \<ge> shiftStart
                                 then ptrPair\<lparr>offset := offset ptrPair + shiftDelta\<rparr>
                                 else ptrPair)
                     (trackingData t),
               ncmds := ncmds t + 1,
               sizeofcmds := sizeofcmds t + cmdsize m2 lc\<rparr>)))"

text \<open>\<^verbatim>\<open>trackData\<close>: \<^verbatim>\<open>std::lower_bound\<close> finds the first tracked region whose \<open>data\<close> is not below the
  new one (the vector is kept sorted by \<open>data\<close>), and the new region goes in front of it.\<close>

fun trackData_insert :: "LinkeditData \<Rightarrow> LinkeditData list \<Rightarrow> LinkeditData list" where
  "trackData_insert d [] = [d]"
| "trackData_insert d (x # xs) =
     (if data x < data d then x # trackData_insert d xs else d # x # xs)"

definition trackData :: "LinkeditTracker \<Rightarrow> LinkeditData \<Rightarrow> LinkeditTracker" where
  "trackData t d = t\<lparr>trackingData := trackData_insert d (trackingData t)\<rparr>"

text \<open>The loop of \<^verbatim>\<open>insertLinkeditData\<close> that updates the tracked regions at or after the
  insertion point: the field a region is named by is increased in memory, and the
  region's address moves.\<close>

fun shiftTracked :: "addr \<Rightarrow> u32 \<Rightarrow> memory \<Rightarrow> LinkeditData list \<Rightarrow> memory \<times> LinkeditData list" where
  "shiftTracked shiftStart shiftDelta m [] = (m, [])"
| "shiftTracked shiftStart shiftDelta m (trackedData # rest) =
     (if data trackedData \<ge> shiftStart
      then (let m' = write32 m (offset trackedData) (read32 m (offset trackedData) + shiftDelta);
                (m'', rest') = shiftTracked shiftStart shiftDelta m' rest
            in (m'', trackedData\<lparr>data := data trackedData + unat shiftDelta\<rparr> # rest'))
      else (let (m'', rest') = shiftTracked shiftStart shiftDelta m rest
            in (m'', trackedData # rest')))"

text \<open>The shift amount, as the source computes it in \<^verbatim>\<open>uint32_t\<close>.\<close>

definition shiftDelta_of :: "u32 \<Rightarrow> u32" where
  "shiftDelta_of n = n + (8 - (n mod 8))"

definition insertLinkeditData ::
    "LinkeditTracker \<Rightarrow> LinkeditData option \<Rightarrow> LinkeditData \<Rightarrow> bool \<times> LinkeditTracker" where
  "insertLinkeditData t after d =
     (let shiftDelta = shiftDelta_of (dataSize d);
          lastDataEnd =
            (if trackingData t \<noteq> []
             then data (last (trackingData t)) + unat (dataSize (last (trackingData t)))
             else tracker_linkeditStart t)
      in if lastDataEnd + unat shiftDelta > tracker_linkeditEnd t then (False, t)
         else
           (let shiftStart =
                  (case after of Some a \<Rightarrow> data a + unat (dataSize a)
                   | None \<Rightarrow> tracker_linkeditStart t);
                m1 = memmove (mem t) (shiftStart + unat shiftDelta) shiftStart
                       (lastDataEnd - shiftStart);
                (m2, tracked) = shiftTracked shiftStart shiftDelta m1 (trackingData t);
                m3 = memset m2 (shiftStart + unat shiftDelta - 8) 0 8;
                m4 = memcpy m3 shiftStart m3 (data d) (unat (dataSize d))
            in (True,
                trackData (t\<lparr>mem := m4, trackingData := tracked\<rparr>)
                  (d\<lparr>data := shiftStart, dataSize := shiftDelta\<rparr>))))"

section \<open>The linkedit optimizer: data\<close>

text \<open>
  Modelled from the spec: the header \<^verbatim>\<open>Loader.h\<close> with the record layouts is not among the
  sources; the records are those of the public \<^verbatim>\<open>loader.h\<close> contract the spec names.  The
  template parameter \<open>P\<close> selects the 32- or 64-bit layouts; the optimizer uses it only
  through \<^verbatim>\<open>sizeof(Macho::Loader::nlist<P>)\<close>.  In both layouts \<^verbatim>\<open>n_un.n_strx\<close> is the 32-bit
  field at byte 0 and \<^verbatim>\<open>n_type\<close> the byte at offset 4.
\<close>

datatype ptr_width = Pointer32 | Pointer64

fun sizeof_nlist :: "ptr_width \<Rightarrow> nat" where
  "sizeof_nlist Pointer32 = 12"
| "sizeof_nlist Pointer64 = 16"

text \<open>The load commands the optimizer reads and rewrites, with the fields it uses.\<close>

record dyld_info_command =
  bind_off :: u32
  bind_size :: u32
  weak_bind_off :: u32
  weak_bind_size :: u32
  lazy_bind_off :: u32
  lazy_bind_size :: u32
  export_off :: u32
  export_size :: u32

record symtab_command =
  symoff :: u32
  nsyms :: u32
  stroff :: u32
  strsize :: u32

record dysymtab_command =
  ilocalsym :: u32
  nlocalsym :: u32
  iextdefsym :: u32
  nextdefsym :: u32
  iundefsym :: u32
  nundefsym :: u32
  indirectsymoff :: u32
  nindirectsyms :: u32

record linkedit_data_command =
  dataoff :: u32
  datasize :: u32

text \<open>
  Modelled from the spec: \<^verbatim>\<open>mach-o/loader.h\<close> is not among the sources.  These are the byte
  offsets of the fields that are registered with the tracker (\<^verbatim>\<open>offsetof\<close> in the structures
  of the public \<^verbatim>\<open>loader.h\<close> contract) and the two sentinels of the indirect symbol table.
\<close>

definition offsetof_bind_off :: nat where "offsetof_bind_off = 16"
definition offsetof_weak_bind_off :: nat where "offsetof_weak_bind_off = 24"
definition offsetof_lazy_bind_off :: nat where "offsetof_lazy_bind_off = 32"
definition offsetof_export_off :: nat where "offsetof_export_off = 40"
definition offsetof_dataoff :: nat where "offsetof_dataoff = 8"
definition offsetof_symoff :: nat where "offsetof_symoff = 8"
definition offsetof_stroff :: nat where "offsetof_stroff = 16"
definition offsetof_indirectsymoff :: nat where "offsetof_indirectsymoff = 56"

definition INDIRECT_SYMBOL_LOCAL :: u32 where "INDIRECT_SYMBOL_LOCAL = 0x80000000"
definition INDIRECT_SYMBOL_ABS :: u32 where "INDIRECT_SYMBOL_ABS = 0x40000000"

text \<open>The literal \<^verbatim>\<open>"<redacted>"\<close>.\<close>

definition redacted_name :: bytes where
  "redacted_name = map of_char ''<redacted>''"

text \<open>
  Modelled from the spec: \<^verbatim>\<open>Utils::alignR\<close> is called by the passes but defined in a header
  that is not among the sources.  The spec says that the sizes stored for tracking are
  padded to 8: the value is rounded up to the next multiple of the boundary and a
  multiple stays as it is.
\<close>

definition alignR :: "u32 \<Rightarrow> u32 \<Rightarrow> u32" where
  "alignR v boundary = (if v mod boundary = 0 then v else v + (boundary - v mod boundary))"

text \<open>
  The symbols subcache, as far as \<^verbatim>\<open>_copyRedactedLocalSymbols\<close> reads it: the bytes of its
  file (addressed from \<^verbatim>\<open>symbolsCache->file\<close>) and \<^verbatim>\<open>header->localSymbolsOffset\<close>.  Of the main
  cache the optimizer asks whether the header extends to \<^verbatim>\<open>symbolFileUUID\<close> and reads
  \<^verbatim>\<open>sharedRegionStart\<close>.
\<close>

record symbols_cache =
  sc_file :: memory
  localSymbolsOffset :: u64

record Dyld_Context =
  headerContainsSymbolFileUUID :: bool
  sharedRegionStart :: u64
  getSymbolsCache :: "symbols_cache option"

text \<open>
  The state of a run.  A pointer to a load command is \<open>None\<close> for \<^verbatim>\<open>nullptr\<close> and otherwise
  the address of the command with its fields.  Next to the members of
  \<^verbatim>\<open>LinkeditOptimizer\<close> the record holds what the passes reach through the contexts
  (\<open>hasRedactedIndirect\<close>, the \<^verbatim>\<open>__TEXT\<close> address and its file offset, the sizes of the
  \<^verbatim>\<open>__LINKEDIT\<close> segment command, the function-starts and data-in-code commands, the bytes
  \<open>fileBytes\<close> of the mapped file) and the two arguments every pass receives: the zeroed
  buffer \<open>newLinkedit\<close> (addressed from its start) and the \<^verbatim>\<open>uint32_t &offset\<close>, here
  \<open>cursor\<close>.
\<close>

record LinkeditOptimizer =
  ptrWidth :: ptr_width
  hasRedactedIndirect :: bool
  dCtx :: Dyld_Context
  text_vmaddr :: u64
  text_fileOffset :: u64
  linkeditSeg_vmsize :: u64
  linkeditSeg_filesize :: u64
  functionStartsCmd :: "(addr \<times> linkedit_data_command) option"
  dataInCodeCmd :: "(addr \<times> linkedit_data_command) option"
  fileBytes :: memory
  linkeditTracker :: LinkeditTracker
  stringsPool :: StringPool
  symbolsCount :: u32
  linkeditFile :: addr
  linkeditOffset :: u32
  linkeditStart :: addr
  dyldInfo :: "(addr \<times> dyld_info_command) option"
  symTab :: "(addr \<times> symtab_command) option"
  dySymTab :: "(addr \<times> dysymtab_command) option"
  exportTrieCmd :: "(addr \<times> linkedit_data_command) option"
  newSymbolEntriesStart :: u32
  redactedSymbolsCount :: u32
  newSymbolIndicies :: "u32 \<rightharpoonup> u32"
  newLinkedit :: memory
  cursor :: u32

text \<open>\<^verbatim>\<open>sizeof(Macho::Loader::nlist<P>)\<close> for the run's pointer width.\<close>

definition nlistSize :: "LinkeditOptimizer \<Rightarrow> nat" where
  "nlistSize s = sizeof_nlist (ptrWidth s)"

section \<open>The linkedit optimizer: verbatim copy passes\<close>

text \<open>Registering a region with the tracker, \<^verbatim>\<open>_linkeditTracker.trackData(LinkeditData(...))\<close>.\<close>

definition track :: "LinkeditOptimizer \<Rightarrow> addr \<Rightarrow> addr \<Rightarrow> u32 \<Rightarrow> LinkeditTracker" where
  "track s fieldPtr dataPtr n =
     trackData (linkeditTracker s) \<lparr>offset = fieldPtr, data = dataPtr, dataSize = n\<rparr>"

definition copyBindingInfo :: "LinkeditOptimizer \<Rightarrow> LinkeditOptimizer" where
  "copyBindingInfo s =
     (case dyldInfo s of
        None \<Rightarrow> s
      | Some (p, c) \<Rightarrow>
          if bind_size c = 0 then s
          else
            (let n = alignR (bind_size c) 8
             in s\<lparr>newLinkedit :=
                    memcpy (newLinkedit s) (unat (cursor s))
                      (fileBytes s) (linkeditFile s + unat (bind_off c)) (unat (bind_size c)),
                  linkeditTracker :=
                    track s (p + offsetof_bind_off) (linkeditStart s + unat (cursor s)) n,
                  dyldInfo := Some (p, c\<lparr>bind_off := linkeditOffset s + cursor s\<rparr>),
                  cursor := cursor s + n\<rparr>))"

definition copyWeakBindingInfo :: "LinkeditOptimizer \<Rightarrow> LinkeditOptimizer" where
  "copyWeakBindingInfo s =
     (case dyldInfo s of
        None \<Rightarrow> s
      | Some (p, c) \<Rightarrow>
          if weak_bind_size c = 0 then s
          else
            (let n = alignR (weak_bind_size c) 8
             in s\<lparr>newLinkedit :=
                    memcpy (newLinkedit s) (unat (cursor s))
                      (fileBytes s) (linkeditFile s + unat (weak_bind_off c))
                      (unat (weak_bind_size c)),
                  linkeditTracker :=
                    track s (p + offsetof_weak_bind_off) (linkeditStart s + unat (cursor s)) n,
                  dyldInfo := Some (p, c\<lparr>weak_bind_off := linkeditOffset s + cursor s\<rparr>),
                  cursor := cursor s + n\<rparr>))"

definition copyLazyBindingInfo :: "LinkeditOptimizer \<Rightarrow> LinkeditOptimizer" where
  "copyLazyBindingInfo s =
     (case dyldInfo s of
        None \<Rightarrow> s
      | Some (p, c) \<Rightarrow>
          if lazy_bind_size c = 0 then s
          else
            (let n = alignR (lazy_bind_size c) 8
             in s\<lparr>newLinkedit :=
                    memcpy (newLinkedit s) (unat (cursor s))
                      (fileBytes s) (linkeditFile s + unat (lazy_bind_off c))
                      (unat (lazy_bind_size c)),
                  linkeditTracker :=
                    track s (p + offsetof_lazy_bind_off) (linkeditStart s + unat (cursor s)) n,
                  dyldInfo := Some (p, c\<lparr>lazy_bind_off := linkeditOffset s + cursor s\<rparr>),
                  cursor := cursor s + n\<rparr>))"

text \<open>
  \<^verbatim>\<open>copyExportInfo\<close> takes the region from the exports-trie command if there is one and from
  \<^verbatim>\<open>dyld_info\<close> otherwise.  The field is written through \<^verbatim>\<open>dataFieldOff\<close>, and the value stored
  is \<^verbatim>\<open>_linkeditStart + offset\<close>: the pointer \<^verbatim>\<open>_linkeditStart\<close>, not the file offset
  \<^verbatim>\<open>_linkeditOffset\<close> of the other passes, cut to 32 bits by the store.
\<close>

definition copyExportInfo :: "LinkeditOptimizer \<Rightarrow> LinkeditOptimizer" where
  "copyExportInfo s =
     (case (exportTrieCmd s, dyldInfo s) of
        (None, None) \<Rightarrow> s
      | (Some (p, c), _) \<Rightarrow>
          if datasize c = 0 then s
          else
            (let n = alignR (datasize c) 8
             in s\<lparr>newLinkedit :=
                    memcpy (newLinkedit s) (unat (cursor s))
                      (fileBytes s) (linkeditFile s + unat (dataoff c)) (unat (datasize c)),
                  linkeditTracker :=
                    track s (p + offsetof_dataoff) (linkeditStart s + unat (cursor s)) n,
                  exportTrieCmd :=
                    Some (p, c\<lparr>dataoff := word_of_nat (linkeditStart s + unat (cursor s))\<rparr>),
                  cursor := cursor s + n\<rparr>)
      | (None, Some (p, c)) \<Rightarrow>
          if export_size c = 0 then s
          else
            (let n = alignR (export_size c) 8
             in s\<lparr>newLinkedit :=
                    memcpy (newLinkedit s) (unat (cursor s))
                      (fileBytes s) (linkeditFile s + unat (export_off c)) (unat (export_size c)),
                  linkeditTracker :=
                    track s (p + offsetof_export_off) (linkeditStart s + unat (cursor s)) n,
                  dyldInfo :=
                    Some (p, c\<lparr>export_off := word_of_nat (linkeditStart s + unat (cursor s))\<rparr>),
                  cursor := cursor s + n\<rparr>))"

definition copyFunctionStarts :: "LinkeditOptimizer \<Rightarrow> LinkeditOptimizer" where
  "copyFunctionStarts s =
     (case functionStartsCmd s of
        None \<Rightarrow> s
      | Some (p, c) \<Rightarrow>
          if datasize c = 0 then s
          else
            (let n = alignR (datasize c) 8
             in s\<lparr>newLinkedit :=
                    memcpy (newLinkedit s) (unat (cursor s))
                      (fileBytes s) (linkeditFile s + unat (dataoff c)) (unat (datasize c)),
                  linkeditTracker :=
                    track s (p + offsetof_dataoff) (linkeditStart s + unat (cursor s)) n,
                  functionStartsCmd := Some (p, c\<lparr>dataoff := linkeditOffset s + cursor s\<rparr>),
                  cursor := cursor s + n\<rparr>))"

definition copyDataInCode :: "LinkeditOptimizer \<Rightarrow> LinkeditOptimizer" where
  "copyDataInCode s =
     (case dataInCodeCmd s of
        None \<Rightarrow> s
      | Some (p, c) \<Rightarrow>
          if datasize c = 0 then s
          else
            (let n = alignR (datasize c) 8
             in s\<lparr>newLinkedit :=
                    memcpy (newLinkedit s) (unat (cursor s))
                      (fileBytes s) (linkeditFile s + unat (dataoff c)) (unat (datasize c)),
                  linkeditTracker :=
                    track s (p + offsetof_dataoff) (linkeditStart s + unat (cursor s)) n,
                  dataInCodeCmd := Some (p, c\<lparr>dataoff := linkeditOffset s + cursor s\<rparr>),
                  cursor := cursor s + n\<rparr>))"

section \<open>The linkedit optimizer: symbol passes\<close>

definition startSymbolEntries :: "LinkeditOptimizer \<Rightarrow> LinkeditOptimizer" where
  "startSymbolEntries s = s\<lparr>newSymbolEntriesStart := cursor s\<rparr>"

text \<open>The counting loop of \<^verbatim>\<open>searchRedactedSymbol\<close>: \<open>i\<close> runs over the \<^verbatim>\<open>nindirectsyms\<close> entries,
  \<open>k\<close> is the number of entries still to visit.\<close>

fun countRedacted :: "memory \<Rightarrow> addr \<Rightarrow> nat \<Rightarrow> nat \<Rightarrow> u32 \<Rightarrow> u32" where
  "countRedacted m indirectSymStart 0 i c = c"
| "countRedacted m indirectSymStart (Suc k) i c =
     countRedacted m indirectSymStart k (Suc i)
       (if read32 m (indirectSymStart + i * 4) = 0 then c + 1 else c)"

text \<open>\<^verbatim>\<open>searchRedactedSymbol\<close> dereferences \<^verbatim>\<open>_dySymTab\<close> without a test.\<close>

definition searchRedactedSymbol :: "LinkeditOptimizer \<Rightarrow> error + LinkeditOptimizer" where
  "searchRedactedSymbol s =
     (case dySymTab s of
        None \<Rightarrow> Inl NullDereference
      | Some (p, d) \<Rightarrow>
          (let indirectSymStart = linkeditFile s + unat (indirectsymoff d);
               s1 = s\<lparr>redactedSymbolsCount :=
                        countRedacted (fileBytes s) indirectSymStart (unat (nindirectsyms d)) 0
                          (redactedSymbolsCount s)\<rparr>
           in if redactedSymbolsCount s1 \<noteq> 0
              then
                (let (strIndex, sp) = addString (stringsPool s1) redacted_name;
                     symbolEntry = unat (cursor s1)
                 in Inr (s1\<lparr>stringsPool := sp,
                            symbolsCount := symbolsCount s1 + 1,
                            newLinkedit :=
                              (write32 (newLinkedit s1) symbolEntry strIndex)(symbolEntry + 4 := 1),
                            cursor := cursor s1 + word_of_nat (nlistSize s1),
                            hasRedactedIndirect := True\<rparr>))
              else Inr s1))"

text \<open>
  The statements every symbol loop applies to a retained entry: the record is copied
  from \<open>src\<close> to the head of the new entries and its \<^verbatim>\<open>n_strx\<close> is replaced by the pool's
  offset of the name.
\<close>

definition copySymbolEntry ::
    "LinkeditOptimizer \<Rightarrow> memory \<Rightarrow> addr \<Rightarrow> bytes \<Rightarrow> addr \<Rightarrow> LinkeditOptimizer" where
  "copySymbolEntry s src entry string newEntry =
     (let (strIndex, sp) = addString (stringsPool s) string
      in s\<lparr>newLinkedit :=
             write32 (memcpy (newLinkedit s) newEntry src entry (nlistSize s)) newEntry strIndex,
           stringsPool := sp\<rparr>)"

text \<open>The loop of \<^verbatim>\<open>_copyPublicLocalSymbols\<close> over the \<^verbatim>\<open>nlocalsym\<close> records from \<open>entry\<close> on
  (\<open>k\<close> records are left); an entry named \<^verbatim>\<open><redacted>\<close> is skipped.\<close>

fun publicLocalsLoop ::
    "addr \<Rightarrow> nat \<Rightarrow> addr \<Rightarrow> addr \<Rightarrow> u32 \<Rightarrow> LinkeditOptimizer \<Rightarrow> error + (u32 \<times> LinkeditOptimizer)" where
  "publicLocalsLoop strings 0 entry newEntriesHead newLocalSymbolsCount s =
     Inr (newLocalSymbolsCount, s)"
| "publicLocalsLoop strings (Suc k) entry newEntriesHead newLocalSymbolsCount s =
     (case cstring (fileBytes s) (strings + unat (read32 (fileBytes s) entry)) of
        None \<Rightarrow> Inl UnterminatedString
      | Some string \<Rightarrow>
          if string = redacted_name
          then publicLocalsLoop strings k (entry + nlistSize s) newEntriesHead
                 newLocalSymbolsCount s
          else publicLocalsLoop strings k (entry + nlistSize s) (newEntriesHead + nlistSize s)
                 (newLocalSymbolsCount + 1)
                 ((copySymbolEntry s (fileBytes s) entry string newEntriesHead)
                    \<lparr>symbolsCount := symbolsCount s + 1\<rparr>))"

text \<open>\<^verbatim>\<open>_copyPublicLocalSymbols\<close> tests \<^verbatim>\<open>_dySymTab\<close> and then reads \<^verbatim>\<open>_symTab\<close> without a test.\<close>

definition copyPublicLocalSymbols ::
    "LinkeditOptimizer \<Rightarrow> error + (u32 \<times> LinkeditOptimizer)" where
  "copyPublicLocalSymbols s =
     (case dySymTab s of
        None \<Rightarrow> Inr (0, s)
      | Some (dp, d) \<Rightarrow>
          if nlocalsym d = 0 then Inr (0, s)
          else
            (case symTab s of
               None \<Rightarrow> Inl NullDereference
             | Some (tp, t) \<Rightarrow>
                 (case publicLocalsLoop (linkeditFile s + unat (stroff t)) (unat (nlocalsym d))
                         (linkeditFile s + unat (symoff t) + nlistSize s * unat (ilocalsym d))
                         (unat (cursor s)) 0 s of
                    Inl e \<Rightarrow> Inl e
                  | Inr (newLocalSymbolsCount, s') \<Rightarrow>
                      Inr (newLocalSymbolsCount,
                           s'\<lparr>cursor :=
                                cursor s' + word_of_nat (nlistSize s') * newLocalSymbolsCount\<rparr>))))"

text \<open>
  \<^verbatim>\<open>_findLocalSymbolEntries\<close>.  The structures of \<^verbatim>\<open>dyld_cache_format.h\<close>, which is not among
  the sources, are laid out as the spec lists them: \<^verbatim>\<open>dyld_cache_local_symbols_info\<close> has the
  32-bit fields
  \<^verbatim>\<open>nlistOffset\<close>, \<^verbatim>\<open>nlistCount\<close>, \<^verbatim>\<open>stringsOffset\<close>, \<^verbatim>\<open>stringsSize\<close>, \<^verbatim>\<open>entriesOffset\<close>, \<^verbatim>\<open>entriesCount\<close>
  at bytes 0, 4, 8, 12, 16, 20.  An entry of a newer cache is
  \<^verbatim>\<open>{ uint64_t dylibOffset; uint32_t nlistStartIndex; uint32_t nlistCount; }\<close> (16 bytes), an
  entry of an older cache has a 32-bit \<^verbatim>\<open>dylibOffset\<close> (12 bytes).  \<open>searchEntries\<close> is the
  lambda of the source at its two instances; \<open>k\<close> entries are left to visit.
\<close>

fun searchEntries64 :: "memory \<Rightarrow> addr \<Rightarrow> nat \<Rightarrow> u64 \<Rightarrow> addr option" where
  "searchEntries64 m entry 0 machoOffset = None"
| "searchEntries64 m entry (Suc k) machoOffset =
     (if read64 m entry = machoOffset then Some entry
      else searchEntries64 m (entry + 16) k machoOffset)"

fun searchEntries32 :: "memory \<Rightarrow> addr \<Rightarrow> nat \<Rightarrow> u32 \<Rightarrow> addr option" where
  "searchEntries32 m entry 0 machoOffset = None"
| "searchEntries32 m entry (Suc k) machoOffset =
     (if read32 m entry = machoOffset then Some entry
      else searchEntries32 m (entry + 12) k machoOffset)"

text \<open>The result is the pair \<^verbatim>\<open>(nlistStart, nlistStart + nlistCount)\<close>, or \<open>None\<close> for the pair of
  null pointers.\<close>

definition findLocalSymbolEntries ::
    "LinkeditOptimizer \<Rightarrow> memory \<Rightarrow> addr \<Rightarrow> (addr \<times> addr) option" where
  "findLocalSymbolEntries s m symbolsInfo =
     (let entriesStart = symbolsInfo + unat (read32 m (symbolsInfo + 16));
          entriesCount = unat (read32 m (symbolsInfo + 20));
          nlistOffset = unat (read32 m symbolsInfo)
      in if headerContainsSymbolFileUUID (dCtx s)
         then
           (case searchEntries64 m entriesStart entriesCount
                   (text_vmaddr s - sharedRegionStart (dCtx s)) of
              None \<Rightarrow> None
            | Some entry \<Rightarrow>
                (let nlistStart =
                       symbolsInfo + nlistOffset + nlistSize s * unat (read32 m (entry + 8))
                 in Some (nlistStart, nlistStart + nlistSize s * unat (read32 m (entry + 12)))))
         else
           (case searchEntries32 m entriesStart entriesCount (ucast (text_fileOffset s)) of
              None \<Rightarrow> None
            | Some entry \<Rightarrow>
                (let nlistStart =
                       symbolsInfo + nlistOffset + nlistSize s * unat (read32 m (entry + 4))
                 in Some (nlistStart, nlistStart + nlistSize s * unat (read32 m (entry + 8))))))"

text \<open>The loop of \<^verbatim>\<open>_copyRedactedLocalSymbols\<close>, from \<open>symEntry\<close> up to \<open>symsEnd\<close>; names and
  records are read from the subcache \<open>m\<close>.\<close>

function redactedLocalsLoop ::
    "memory \<Rightarrow> addr \<Rightarrow> addr \<Rightarrow> addr \<Rightarrow> addr \<Rightarrow> u32 \<Rightarrow> LinkeditOptimizer
     \<Rightarrow> error + (u32 \<times> LinkeditOptimizer)" where
  "redactedLocalsLoop m stringsStart symsEnd symEntry newEntriesHead newLocalSymbolsCount s =
     (if symEntry < symsEnd
      then
        (case cstring m (stringsStart + unat (read32 m symEntry)) of
           None \<Rightarrow> Inl UnterminatedString
         | Some string \<Rightarrow>
             redactedLocalsLoop m stringsStart symsEnd (symEntry + nlistSize s)
               (newEntriesHead + nlistSize s) (newLocalSymbolsCount + 1)
               ((copySymbolEntry s m symEntry string newEntriesHead)
                  \<lparr>symbolsCount := symbolsCount s + 1\<rparr>))
      else Inr (newLocalSymbolsCount, s))"
  by pat_completeness auto
termination
proof (relation "measure (\<lambda>(m, stringsStart, symsEnd, symEntry, rest). symsEnd - symEntry)")
  show "wf (measure (\<lambda>(m, stringsStart, symsEnd, symEntry, rest). symsEnd - symEntry))"
    by simp
next
  fix m :: memory and stringsStart symsEnd symEntry newEntriesHead :: addr
    and newLocalSymbolsCount :: u32 and s :: LinkeditOptimizer and string :: bytes
  assume "symEntry < symsEnd"
  moreover have "0 < nlistSize s"
    by (cases "ptrWidth s") (simp_all add: nlistSize_def)
  ultimately show
    "((m, stringsStart, symsEnd, symEntry + nlistSize s, newEntriesHead + nlistSize s,
       newLocalSymbolsCount + 1,
       (copySymbolEntry s m symEntry string newEntriesHead)
         \<lparr>symbolsCount := symbolsCount s + 1\<rparr>),
      (m, stringsStart, symsEnd, symEntry, newEntriesHead, newLocalSymbolsCount, s))
     \<in> measure (\<lambda>(m, stringsStart, symsEnd, symEntry, rest). symsEnd - symEntry)"
    by simp
qed

declare redactedLocalsLoop.simps [simp del]

text \<open>If the entries are not found the source logs an error and goes on with two null
  pointers, so that the loop does not run.\<close>

definition copyRedactedLocalSymbols ::
    "LinkeditOptimizer \<Rightarrow> error + (u32 \<times> LinkeditOptimizer)" where
  "copyRedactedLocalSymbols s =
     (case getSymbolsCache (dCtx s) of
        None \<Rightarrow> Inr (0, s)
      | Some symbolsCache \<Rightarrow>
          if localSymbolsOffset symbolsCache = 0 then Inr (0, s)
          else
            (let m = sc_file symbolsCache;
                 localSymsInfo = unat (localSymbolsOffset symbolsCache);
                 stringsStart = localSymsInfo + unat (read32 m (localSymsInfo + 8))
             in case findLocalSymbolEntries s m localSymsInfo of
                  None \<Rightarrow> Inr (0, s)
                | Some (symsStart, symsEnd) \<Rightarrow>
                    (case redactedLocalsLoop m stringsStart symsEnd symsStart (unat (cursor s)) 0 s of
                       Inl e \<Rightarrow> Inl e
                     | Inr (newLocalSymbolsCount, s') \<Rightarrow>
                         Inr (newLocalSymbolsCount,
                              s'\<lparr>cursor :=
                                   cursor s' + word_of_nat (nlistSize s') * newLocalSymbolsCount\<rparr>))))"

text \<open>\<^verbatim>\<open>copyLocalSymbols\<close>: the two fields of \<^verbatim>\<open>dysymtab\<close> are written under the guard
  \<^verbatim>\<open>newSymsCount && _dySymTab\<close>.\<close>

definition copyLocalSymbols :: "LinkeditOptimizer \<Rightarrow> error + LinkeditOptimizer" where
  "copyLocalSymbols s =
     (let newLocalSymbolsStartIndex = symbolsCount s
      in case copyPublicLocalSymbols s of
           Inl e \<Rightarrow> Inl e
         | Inr (n1, s1) \<Rightarrow>
             (case copyRedactedLocalSymbols s1 of
                Inl e \<Rightarrow> Inl e
              | Inr (n2, s2) \<Rightarrow>
                  (let newSymsCount = n1 + n2
                   in case dySymTab s2 of
                        None \<Rightarrow> Inr s2
                      | Some (dp, d) \<Rightarrow>
                          if newSymsCount \<noteq> 0
                          then Inr (s2\<lparr>dySymTab :=
                                         Some (dp, d\<lparr>ilocalsym := newLocalSymbolsStartIndex,
                                                     nlocalsym := newSymsCount\<rparr>)\<rparr>)
                          else Inr s2)))"

text \<open>
  The loop shared, statement for statement, by \<^verbatim>\<open>copyExportedSymbols\<close> and
  \<^verbatim>\<open>copyImportedSymbols\<close>: \<open>symIndex\<close> runs in \<^verbatim>\<open>uint32_t\<close> from \<open>symsStart\<close> while it is below
  \<open>symsEnd\<close>; each record is copied and \<^verbatim>\<open>_newSymbolIndicies[symIndex] = _symbolsCount\<close>
  is recorded.
\<close>

function copySymbolsLoop ::
    "u32 \<Rightarrow> u32 \<Rightarrow> addr \<Rightarrow> addr \<Rightarrow> addr \<Rightarrow> u32 \<Rightarrow> LinkeditOptimizer
     \<Rightarrow> error + (u32 \<times> LinkeditOptimizer)" where
  "copySymbolsLoop symIndex symsEnd syms stringsStart newEntriesHead newSymbolsCount s =
     (if symIndex < symsEnd
      then
        (let symEntry = syms + nlistSize s * unat symIndex
         in case cstring (fileBytes s) (stringsStart + unat (read32 (fileBytes s) symEntry)) of
              None \<Rightarrow> Inl UnterminatedString
            | Some string \<Rightarrow>
                copySymbolsLoop (symIndex + 1) symsEnd syms stringsStart
                  (newEntriesHead + nlistSize s) (newSymbolsCount + 1)
                  ((copySymbolEntry s (fileBytes s) symEntry string newEntriesHead)
                     \<lparr>newSymbolIndicies := (newSymbolIndicies s)(symIndex \<mapsto> symbolsCount s),
                      symbolsCount := symbolsCount s + 1\<rparr>))
      else Inr (newSymbolsCount, s))"
  by pat_completeness auto
termination
proof (relation "measure (\<lambda>(symIndex, symsEnd, rest). unat symsEnd - unat symIndex)")
  show "wf (measure (\<lambda>(symIndex :: u32, symsEnd :: u32, rest ::
      addr \<times> addr \<times> addr \<times> u32 \<times> LinkeditOptimizer). unat symsEnd - unat symIndex))"
    by simp
next
  fix symIndex symsEnd :: u32 and syms stringsStart newEntriesHead symEntry :: addr
    and newSymbolsCount :: u32 and s :: LinkeditOptimizer and string :: bytes
  assume lt: "symIndex < symsEnd"
  then have lt': "unat symIndex < unat symsEnd"
    by (simp add: word_less_nat_alt)
  moreover have "unat symsEnd < 2 ^ 32"
    using unsigned_less [of symsEnd, where ?'a = nat] by simp
  ultimately have "unat (symIndex + 1) = Suc (unat symIndex)"
    by (simp add: unat_word_ariths)
  with lt' show
    "((symIndex + 1, symsEnd, syms, stringsStart, newEntriesHead + nlistSize s,
       newSymbolsCount + 1,
       (copySymbolEntry s (fileBytes s) symEntry string newEntriesHead)
         \<lparr>newSymbolIndicies := (newSymbolIndicies s)(symIndex \<mapsto> symbolsCount s),
          symbolsCount := symbolsCount s + 1\<rparr>),
      (symIndex, symsEnd, syms, stringsStart, newEntriesHead, newSymbolsCount, s))
     \<in> measure (\<lambda>(symIndex, symsEnd, rest). unat symsEnd - unat symIndex)"
    by simp
qed

declare copySymbolsLoop.simps [simp del]

text \<open>\<^verbatim>\<open>copyExportedSymbols\<close> and \<^verbatim>\<open>copyImportedSymbols\<close> return at once without \<^verbatim>\<open>dysymtab\<close>
  and read \<^verbatim>\<open>_symTab\<close> without a test.\<close>

definition copyExportedSymbols :: "LinkeditOptimizer \<Rightarrow> error + LinkeditOptimizer" where
  "copyExportedSymbols s =
     (case dySymTab s of
        None \<Rightarrow> Inr s
      | Some (dp, d) \<Rightarrow>
          (case symTab s of
             None \<Rightarrow> Inl NullDereference
           | Some (tp, t) \<Rightarrow>
               (let newExportedSymbolsStartIndex = symbolsCount s;
                    symsStart = iextdefsym d;
                    symsEnd = symsStart + nextdefsym d
                in case copySymbolsLoop symsStart symsEnd (linkeditFile s + unat (symoff t))
                          (linkeditFile s + unat (stroff t)) (unat (cursor s)) 0 s of
                     Inl e \<Rightarrow> Inl e
                   | Inr (newExportedSymbolsCount, s') \<Rightarrow>
                       Inr (s'\<lparr>dySymTab :=
                                 (if newExportedSymbolsCount \<noteq> 0
                                  then Some (dp, d\<lparr>iextdefsym := newExportedSymbolsStartIndex,
                                                  nextdefsym := newExportedSymbolsCount\<rparr>)
                                  else dySymTab s'),
                               cursor :=
                                 cursor s'
                                 + word_of_nat (nlistSize s') * newExportedSymbolsCount\<rparr>))))"

definition copyImportedSymbols :: "LinkeditOptimizer \<Rightarrow> error + LinkeditOptimizer" where
  "copyImportedSymbols s =
     (case dySymTab s of
        None \<Rightarrow> Inr s
      | Some (dp, d) \<Rightarrow>
          (case symTab s of
             None \<Rightarrow> Inl NullDereference
           | Some (tp, t) \<Rightarrow>
               (let newImportedSymbolsStartIndex = symbolsCount s;
                    symsStart = iundefsym d;
                    symsEnd = symsStart + nundefsym d
                in case copySymbolsLoop symsStart symsEnd (linkeditFile s + unat (symoff t))
                          (linkeditFile s + unat (stroff t)) (unat (cursor s)) 0 s of
                     Inl e \<Rightarrow> Inl e
                   | Inr (newImportedSymbolsCount, s') \<Rightarrow>
                       Inr (s'\<lparr>dySymTab :=
                                 (if newImportedSymbolsCount \<noteq> 0
                                  then Some (dp, d\<lparr>iundefsym := newImportedSymbolsStartIndex,
                                                  nundefsym := newImportedSymbolsCount\<rparr>)
                                  else dySymTab s'),
                               cursor :=
                                 cursor s'
                                 + word_of_nat (nlistSize s') * newImportedSymbolsCount\<rparr>))))"

definition endSymbolEntries :: "LinkeditOptimizer \<Rightarrow> LinkeditOptimizer" where
  "endSymbolEntries s =
     (case symTab s of
        None \<Rightarrow> s
      | Some (tp, t) \<Rightarrow>
          (let off = cursor s + word_of_nat (nlistSize s) * redactedSymbolsCount s;
               symEntrySize = alignR (off - newSymbolEntriesStart s) 8
           in s\<lparr>cursor := off,
                linkeditTracker :=
                  track s (tp + offsetof_symoff)
                    (linkeditStart s + unat (newSymbolEntriesStart s)) symEntrySize,
                symTab :=
                  Some (tp, t\<lparr>symoff := linkeditOffset s + newSymbolEntriesStart s,
                              nsyms := symbolsCount s\<rparr>)\<rparr>))"

section \<open>The linkedit optimizer: indirect symbols, string pool, pipeline\<close>

text \<open>\<^verbatim>\<open>_newSymbolIndicies[key]\<close> on the \<^verbatim>\<open>std::map\<close>: a key that is not in the map is inserted
  with the value-initialised index 0, which is the result.\<close>

definition lookupIndex :: "(u32 \<rightharpoonup> u32) \<Rightarrow> u32 \<Rightarrow> u32 \<times> (u32 \<rightharpoonup> u32)" where
  "lookupIndex m k = (case m k of Some v \<Rightarrow> (v, m) | None \<Rightarrow> (0, m(k \<mapsto> 0)))"

text \<open>
  The loop of \<^verbatim>\<open>copyIndirectSymbolTable\<close> (\<open>k\<close> entries are left).  The branch for the three
  special values stores the entry and falls through to the store of the looked-up
  index, which the source executes for every entry.
\<close>

fun indirectLoop :: "addr \<Rightarrow> addr \<Rightarrow> nat \<Rightarrow> nat \<Rightarrow> LinkeditOptimizer \<Rightarrow> LinkeditOptimizer" where
  "indirectLoop entries newEntries 0 entryIndex s = s"
| "indirectLoop entries newEntries (Suc k) entryIndex s =
     (let entry = read32 (fileBytes s) (entries + 4 * entryIndex);
          copied =
            (if entry = INDIRECT_SYMBOL_ABS \<or> entry = INDIRECT_SYMBOL_LOCAL \<or> entry = 0
             then write32 (newLinkedit s) (newEntries + 4 * entryIndex) entry
             else newLinkedit s);
          (newIndex, indicies) = lookupIndex (newSymbolIndicies s) entry
      in indirectLoop entries newEntries k (Suc entryIndex)
           (s\<lparr>newLinkedit := write32 copied (newEntries + 4 * entryIndex) newIndex,
              newSymbolIndicies := indicies\<rparr>))"

definition copyIndirectSymbolTable :: "LinkeditOptimizer \<Rightarrow> LinkeditOptimizer" where
  "copyIndirectSymbolTable s =
     (case dySymTab s of
        None \<Rightarrow> s
      | Some (dp, d) \<Rightarrow>
          (let s' = indirectLoop (linkeditFile s + unat (indirectsymoff d)) (unat (cursor s))
                      (unat (nindirectsyms d)) 0 s;
               n = alignR (nindirectsyms d * 4) 8
           in s'\<lparr>linkeditTracker :=
                   track s' (dp + offsetof_indirectsymoff) (linkeditStart s' + unat (cursor s')) n,
                 dySymTab := Some (dp, d\<lparr>indirectsymoff := linkeditOffset s' + cursor s'\<rparr>),
                 cursor := cursor s' + n\<rparr>))"

text \<open>\<^verbatim>\<open>copyStringPool\<close> writes the pool first and then stores through \<^verbatim>\<open>_symTab\<close> without a
  test.\<close>

definition copyStringPool :: "LinkeditOptimizer \<Rightarrow> error + LinkeditOptimizer" where
  "copyStringPool s =
     (case writeStrings (stringsPool s) (newLinkedit s) (unat (cursor s)) of
        Inl e \<Rightarrow> Inl e
      | Inr (written, n) \<Rightarrow>
          (case symTab s of
             None \<Rightarrow> Inl NullDereference
           | Some (tp, t) \<Rightarrow>
               Inr (s\<lparr>newLinkedit := written,
                      symTab := Some (tp, t\<lparr>stroff := linkeditOffset s + cursor s, strsize := n\<rparr>),
                      linkeditTracker :=
                        track s (tp + offsetof_stroff) (linkeditStart s + unat (cursor s))
                          (alignR n 8),
                      cursor := cursor s + alignR n 8\<rparr>)))"

definition updateLoadCommands :: "LinkeditOptimizer \<Rightarrow> LinkeditOptimizer" where
  "updateLoadCommands s =
     s\<lparr>linkeditSeg_vmsize := ucast (cursor s), linkeditSeg_filesize := ucast (cursor s)\<rparr>"

text \<open>Sequencing of passes that can fail.\<close>

definition andThen :: "error + 'a \<Rightarrow> ('a \<Rightarrow> error + 'b) \<Rightarrow> error + 'b" where
  "andThen r f = (case r of Inl e \<Rightarrow> Inl e | Inr x \<Rightarrow> f x)"

text \<open>
  \<^verbatim>\<open>optimizeLinkedit\<close> for an image that has its \<^verbatim>\<open>__text\<close> section and \<^verbatim>\<open>__LINKEDIT\<close> segment (without
  them the source throws before the first pass).  A new tracker has no tracked
  regions; the optimizer starts with the pool of the \<^verbatim>\<open>StringPool\<close> constructor, counters
  0 and an empty index map; the buffer comes from \<^verbatim>\<open>calloc\<close> and the cursor is 0.  The
  passes run in the order of the source, which does not call \<^verbatim>\<open>copyExportInfo\<close>; at the
  end the buffer is copied over the old linkedit data.
\<close>

definition LinkeditOptimizer_new :: "LinkeditOptimizer \<Rightarrow> LinkeditOptimizer" where
  "LinkeditOptimizer_new eCtx =
     eCtx\<lparr>linkeditTracker := (linkeditTracker eCtx)\<lparr>trackingData := []\<rparr>,
          stringsPool := StringPool_new,
          symbolsCount := 0,
          newSymbolEntriesStart := 0,
          redactedSymbolsCount := 0,
          newSymbolIndicies := Map.empty,
          newLinkedit := (\<lambda>a. 0),
          cursor := 0\<rparr>"

definition optimizeLinkedit :: "LinkeditOptimizer \<Rightarrow> error + LinkeditOptimizer" where
  "optimizeLinkedit eCtx =
     andThen (searchRedactedSymbol
               (startSymbolEntries
                 (copyLazyBindingInfo
                   (copyWeakBindingInfo (copyBindingInfo (LinkeditOptimizer_new eCtx))))))
       (\<lambda>s. andThen (copyLocalSymbols s)
         (\<lambda>s. andThen (copyExportedSymbols s)
           (\<lambda>s. andThen (copyImportedSymbols s)
             (\<lambda>s. andThen
                    (copyStringPool
                      (copyIndirectSymbolTable
                        (copyDataInCode (copyFunctionStarts (endSymbolEntries s)))))
               (\<lambda>s. Inr (updateLoadCommands
                           (s\<lparr>fileBytes :=
                                memcpy (fileBytes s) (linkeditStart s) (newLinkedit s) 0
                                  (unat (cursor s))\<rparr>)))))))"

section \<open>A concrete image\<close>

text \<open>
  A small 64-bit image for examples, after scenario 2 of the specification: the symbol
  table holds the exported \<^verbatim>\<open>_foo\<close>, the imported \<^verbatim>\<open>_bar\<close> and a third record named
  \<^verbatim>\<open><redacted>\<close>; the indirect symbol table holds the index of \<^verbatim>\<open>_bar\<close>, a zero, the two
  sentinels and the index of the third record.  The file is mapped at address
  \<open>0x10000\<close>; the symbol records are at file offset \<open>0x100\<close>, the strings at \<open>0x200\<close>, the
  indirect table at \<open>0x300\<close>.  There is no symbols subcache.
\<close>

definition scenario_symbols :: bytes where
  "scenario_symbols =
     [1, 0, 0, 0, 0x0f, 1, 0, 0, 0, 0x10, 0, 0, 0, 0, 0, 0,
      6, 0, 0, 0, 0x01, 0, 0, 0, 0, 0, 0, 0, 0, 0, 0, 0,
      11, 0, 0, 0, 0x0e, 1, 0, 0, 0x20, 0x10, 0, 0, 0, 0, 0, 0]"

definition scenario_strings :: bytes where
  "scenario_strings =
     0 # map of_char ''_foo'' @ 0 # map of_char ''_bar'' @ 0 # redacted_name @ [0]"

definition scenario_indirect :: bytes where
  "scenario_indirect =
     [1, 0, 0, 0,  0, 0, 0, 0,  0, 0, 0, 0x80,  0, 0, 0, 0x40,  2, 0, 0, 0]"

definition scenario_file :: memory where
  "scenario_file =
     write_bytes (write_bytes (write_bytes (\<lambda>a. 0) 0x10100 scenario_symbols)
       0x10200 scenario_strings) 0x10300 scenario_indirect"

definition scenario_dysymtab :: dysymtab_command where
  "scenario_dysymtab =
     \<lparr>ilocalsym = 0, nlocalsym = 0, iextdefsym = 0, nextdefsym = 1,
      iundefsym = 1, nundefsym = 1, indirectsymoff = 0x300, nindirectsyms = 5\<rparr>"

definition scenario_image :: LinkeditOptimizer where
  "scenario_image =
     \<lparr>ptrWidth = Pointer64,
      hasRedactedIndirect = False,
      dCtx = \<lparr>headerContainsSymbolFileUUID = True, sharedRegionStart = 0x180000000,
              getSymbolsCache = None\<rparr>,
      text_vmaddr = 0x180010000,
      text_fileOffset = 0x10000,
      linkeditSeg_vmsize = 0x1000,
      linkeditSeg_filesize = 0x1000,
      functionStartsCmd = None,
      dataInCodeCmd = None,
      fileBytes = scenario_file,
      linkeditTracker =
        \<lparr>mem = scenario_file, ncmds = 3, sizeofcmds = 0xA8, commandsStart = 0x10020,
         headerSpaceAvailable = 0xC0, tracker_linkeditStart = 0x10100,
         tracker_linkeditEnd = 0x11100, trackingData = []\<rparr>,
      stringsPool = StringPool_new,
      symbolsCount = 0,
      linkeditFile = 0x10000,
      linkeditOffset = 0x100,
      linkeditStart = 0x10100,
      dyldInfo = None,
      symTab = Some (0x10020, \<lparr>symoff = 0x100, nsyms = 3, stroff = 0x200, strsize = 22\<rparr>),
      dySymTab = Some (0x10038, scenario_dysymtab),
      exportTrieCmd = None,
      newSymbolEntriesStart = 0,
      redactedSymbolsCount = 0,
      newSymbolIndicies = Map.empty,
      newLinkedit = (\<lambda>a. 0),
      cursor = 0\<rparr>"

text \<open>The states of the run on this image after the probe for redacted indirect symbols,
  after the exported symbols and after the imported symbols; and two variants of the
  state after the probe whose local range is the record named \<^verbatim>\<open><redacted>\<close> alone, and
  all three records, with the state the local-symbols pass reaches from the latter.\<close>

definition after_probe :: LinkeditOptimizer where
  "after_probe = scenario_image
     \<lparr>hasRedactedIndirect := True,
      stringsPool := \<lparr>pool = [([], 0), (redacted_name, 1)], stringsLength = 12\<rparr>,
      symbolsCount := 1,
      redactedSymbolsCount := 1,
      newLinkedit := (write32 (\<lambda>a. 0) 0 1)(4 := 1),
      cursor := 16\<rparr>"

definition after_exported :: LinkeditOptimizer where
  "after_exported = after_probe
     \<lparr>stringsPool :=
        \<lparr>pool = [([], 0), (redacted_name, 1), (map of_char ''_foo'', 12)], stringsLength = 17\<rparr>,
      symbolsCount := 2,
      dySymTab := Some (0x10038, scenario_dysymtab\<lparr>iextdefsym := 1, nextdefsym := 1\<rparr>),
      newSymbolIndicies := [0 \<mapsto> 1],
      newLinkedit :=
        write32 (memcpy (newLinkedit after_probe) 16 scenario_file 0x10100 16) 16 12,
      cursor := 32\<rparr>"

definition after_imported :: LinkeditOptimizer where
  "after_imported = after_exported
     \<lparr>stringsPool :=
        \<lparr>pool = [([], 0), (redacted_name, 1), (map of_char ''_foo'', 12),
                 (map of_char ''_bar'', 17)],
         stringsLength = 22\<rparr>,
      symbolsCount := 3,
      dySymTab :=
        Some (0x10038,
              scenario_dysymtab\<lparr>iextdefsym := 1, nextdefsym := 1, iundefsym := 2, nundefsym := 1\<rparr>),
      newSymbolIndicies := [0 \<mapsto> 1, 1 \<mapsto> 2],
      newLinkedit :=
        write32 (memcpy (newLinkedit after_exported) 32 scenario_file 0x10110 16) 32 17,
      cursor := 48\<rparr>"

definition redacted_local_image :: LinkeditOptimizer where
  "redacted_local_image =
     after_probe\<lparr>dySymTab := Some (0x10038, scenario_dysymtab\<lparr>ilocalsym := 2, nlocalsym := 1\<rparr>)\<rparr>"

definition three_locals_image :: LinkeditOptimizer where
  "three_locals_image =
     after_probe\<lparr>dySymTab := Some (0x10038, scenario_dysymtab\<lparr>ilocalsym := 0, nlocalsym := 3\<rparr>)\<rparr>"

definition after_three_locals :: LinkeditOptimizer where
  "after_three_locals = after_imported
     \<lparr>dySymTab := Some (0x10038, scenario_dysymtab\<lparr>ilocalsym := 1, nlocalsym := 2\<rparr>),
      newSymbolIndicies := Map.empty\<rparr>"

section \<open>Properties of the string pool\<close>

lemma addString_keeps:
  "map_of (pool sp) s = Some i \<Longrightarrow> map_of (pool (snd (addString sp t))) s = Some i"
  by (auto simp: addString_def Let_def split: option.splits)

lemma addString_records:
  "map_of (pool (snd (addString sp s))) s = Some (fst (addString sp s))"
  by (auto simp: addString_def Let_def map_add_def split: option.splits)

lemma addStrings_keeps:
  "map_of (pool sp) s = Some i \<Longrightarrow> map_of (pool (addStrings sp ts)) s = Some i"
  by (induction ts arbitrary: sp) (auto simp: addString_keeps)

lemma addString_known:
  "map_of (pool sp) s = Some i \<Longrightarrow> addString sp s = (i, sp)"
  by (simp add: addString_def)

lemma StringPool_new_eq: "StringPool_new = \<lparr>pool = [([], 0)], stringsLength = 1\<rparr>"
  by (simp add: StringPool_new_def StringPool_empty_def addString_def)

text \<open>
  Claim C8.  Once a string \<open>s\<close> has been added to a pool, adding a string with the same
  bytes again, after any further additions \<open>ts\<close>, returns the offset of the first
  addition and leaves the pool (its map and its length) as it is.  The pool of the
  constructor holds the empty string at offset 0 and has length 1 (the single NUL),
  and adding the empty string to any pool grown from it returns 0.
\<close>

theorem addString_dedup:
  "addString (addStrings (snd (addString sp s)) ts) s =
     (fst (addString sp s), addStrings (snd (addString sp s)) ts)
   \<and> StringPool_new = \<lparr>pool = [([], 0)], stringsLength = 1\<rparr>
   \<and> addString (addStrings StringPool_new ts) [] = (0, addStrings StringPool_new ts)"
proof (intro conjI)
  show "addString (addStrings (snd (addString sp s)) ts) s =
     (fst (addString sp s), addStrings (snd (addString sp s)) ts)"
    by (rule addString_known) (rule addStrings_keeps, rule addString_records)
  show "StringPool_new = \<lparr>pool = [([], 0)], stringsLength = 1\<rparr>"
    by (rule StringPool_new_eq)
  have "map_of (pool StringPool_new) [] = Some 0"
    by (simp add: StringPool_new_eq)
  then show "addString (addStrings StringPool_new ts) [] = (0, addStrings StringPool_new ts)"
    by (intro addString_known addStrings_keeps)
qed

lemma writeStringsLoop_value:
  "m a = v \<Longrightarrow>
   (\<And>off s. (off, s) \<in> set L \<Longrightarrow> dest + unat off \<le> a \<Longrightarrow> a < dest + unat off + length s
       \<Longrightarrow> s ! (a - (dest + unat off)) = v)
   \<Longrightarrow> writeStringsLoop m dest L a = v"
proof (induction m dest L rule: writeStringsLoop.induct)
  case (1 m dest)
  then show ?case by simp
next
  case (2 m dest off string rest)
  have "write_bytes m (dest + unat off) string a = v"
    using "2.prems" by (auto simp: write_bytes_def)
  then show ?case
    using "2.prems"(2) by (simp add: "2.IH")
qed

lemma writeStringsLoop_written:
  "(off, s) \<in> set L \<Longrightarrow> dest + unat off \<le> a \<Longrightarrow> a < dest + unat off + length s \<Longrightarrow>
   (\<And>off' s'. (off', s') \<in> set L \<Longrightarrow> dest + unat off' \<le> a \<Longrightarrow> a < dest + unat off' + length s'
       \<Longrightarrow> s' ! (a - (dest + unat off')) = v)
   \<Longrightarrow> writeStringsLoop m dest L a = v"
proof (induction m dest L rule: writeStringsLoop.induct)
  case (1 m dest)
  then show ?case by simp
next
  case (2 m dest off' string rest)
  show ?case
  proof (cases "dest + unat off' \<le> a \<and> a < dest + unat off' + length string")
    case True
    then have "write_bytes m (dest + unat off') string a = v"
      using "2.prems"(4) [of off' string] by (simp add: write_bytes_def)
    then show ?thesis
      using "2.prems"(4) by (simp add: writeStringsLoop_value)
  next
    case False
    then have "(off, s) \<in> set rest"
      using "2.prems"(1,2,3) by auto
    then show ?thesis
      using "2.prems"(2,3,4) by (simp add: "2.IH")
  qed
qed

lemma poolBytes_simps [simp]:
  "poolBytes [] = 0" "poolBytes (p # ps) = length (fst p) + 1 + poolBytes ps"
  "poolBytes (ps @ qs) = poolBytes ps + poolBytes qs"
  by (simp_all add: poolBytes_def)

lemma laidOutFrom_snoc:
  "laidOutFrom n (ps @ [(s, off)]) = (laidOutFrom n ps \<and> off = word_of_nat (n + poolBytes ps))"
  by (induction n ps rule: laidOutFrom.induct) (auto simp: add.assoc)

lemma addString_laidOut:
  assumes "laidOutFrom 0 (pool sp)" "stringsLength sp = word_of_nat (poolBytes (pool sp))"
  shows "laidOutFrom 0 (pool (snd (addString sp s)))
     \<and> stringsLength (snd (addString sp s)) = word_of_nat (poolBytes (pool (snd (addString sp s))))"
  using assms by (auto simp: addString_def Let_def laidOutFrom_snoc split: option.splits)

lemma addStrings_laidOut:
  assumes "laidOutFrom 0 (pool sp)" "stringsLength sp = word_of_nat (poolBytes (pool sp))"
  shows "laidOutFrom 0 (pool (addStrings sp ts))
     \<and> stringsLength (addStrings sp ts) = word_of_nat (poolBytes (pool (addStrings sp ts)))"
  using assms
proof (induction ts arbitrary: sp)
  case Nil
  then show ?case by simp
next
  case (Cons t ts)
  from addString_laidOut [OF Cons.prems, of t] show ?case
    by (simp add: Cons.IH)
qed

lemma laidOutFrom_lower:
  "laidOutFrom n ps \<Longrightarrow> n + poolBytes ps \<le> 2 ^ 32 \<Longrightarrow> (s, off) \<in> set ps \<Longrightarrow> n \<le> unat off"
proof (induction n ps rule: laidOutFrom.induct)
  case (1 n)
  then show ?case by simp
next
  case (2 n s' off' ps)
  show ?case
  proof (cases "(s, off) = (s', off')")
    case True
    have "n < 2 ^ 32" using "2.prems"(2) by simp
    then have "unat (word_of_nat n :: u32) = n"
      by (simp add: unat_of_nat)
    then show ?thesis using True "2.prems"(1) by simp
  next
    case False
    then have "(s, off) \<in> set ps" using "2.prems"(3) by auto
    then have "n + length s' + 1 \<le> unat off"
      using "2.IH" "2.prems"(1,2) by simp
    then show ?thesis by simp
  qed
qed

lemma laidOutFrom_sorted:
  "laidOutFrom n ps \<Longrightarrow> n + poolBytes ps \<le> 2 ^ 32 \<Longrightarrow>
   sorted (map (\<lambda>(string, off). (off, string)) ps)"
proof (induction n ps rule: laidOutFrom.induct)
  case (1 n)
  then show ?case by simp
next
  case (2 n s off ps)
  have n: "unat off = n"
    using "2.prems" by (simp add: unat_of_nat)
  have "off < off'" if "(s', off') \<in> set ps" for s' off'
  proof -
    have "n + length s + 1 \<le> unat off'"
      using laidOutFrom_lower [of "n + length s + 1" ps s' off'] "2.prems" that by simp
    then show ?thesis using n by (simp add: word_less_nat_alt)
  qed
  then have "\<forall>p \<in> set ps. (off, s) \<le> (snd p, fst p)"
    by (auto simp: less_eq_prod_def)
  moreover have "sorted (map (\<lambda>p. (snd p, fst p)) ps)"
    using "2.IH" "2.prems" by (simp add: case_prod_beta)
  ultimately show ?case
    by (simp add: case_prod_beta)
qed

lemma laidOutFrom_last:
  "laidOutFrom n ps \<Longrightarrow> ps \<noteq> [] \<Longrightarrow>
   snd (last ps) + word_of_nat (length (fst (last ps))) + 1 = (word_of_nat (n + poolBytes ps) :: u32)"
  by (induction n ps rule: laidOutFrom.induct) (auto simp: add.assoc)

lemma laidOutFrom_upper:
  "laidOutFrom n ps \<Longrightarrow> (s, off) \<in> set ps \<Longrightarrow> n + poolBytes ps \<le> 2 ^ 32 \<Longrightarrow>
   unat off + length s + 1 \<le> n + poolBytes ps"
proof (induction n ps rule: laidOutFrom.induct)
  case (1 n)
  then show ?case by simp
next
  case (2 n s' off' ps)
  show ?case
  proof (cases "(s, off) = (s', off')")
    case True
    have "n < 2 ^ 32" using "2.prems"(3) by simp
    then have "unat (word_of_nat n :: u32) = n"
      by (simp add: unat_of_nat)
    then show ?thesis using True "2.prems"(1) by simp
  next
    case False
    then have "(s, off) \<in> set ps" using "2.prems"(2) by auto
    then have "unat off + length s + 1 \<le> n + length s' + 1 + poolBytes ps"
      using "2.IH" "2.prems"(1,3) by simp
    then show ?thesis by simp
  qed
qed

text \<open>In a laid-out pool, an address inside the characters or on the terminator of one
  entry is inside the characters of no other entry.\<close>

lemma laidOutFrom_disjoint:
  "laidOutFrom n ps \<Longrightarrow> n + poolBytes ps \<le> 2 ^ 32 \<Longrightarrow>
   (s, off) \<in> set ps \<Longrightarrow> (s', off') \<in> set ps \<Longrightarrow>
   unat off \<le> a \<Longrightarrow> a \<le> unat off + length s \<Longrightarrow>
   unat off' \<le> a \<Longrightarrow> a < unat off' + length s' \<Longrightarrow> (s, off) = (s', off')"
proof (induction n ps rule: laidOutFrom.induct)
  case (1 n)
  then show ?case by simp
next
  case (2 n s0 off0 ps)
  have n: "unat off0 = n"
    using "2.prems"(1,2) by (simp add: unat_of_nat)
  have rest: "laidOutFrom (n + length s0 + 1) ps" "n + length s0 + 1 + poolBytes ps \<le> 2 ^ 32"
    using "2.prems"(1,2) by simp_all
  consider "(s, off) = (s0, off0)" "(s', off') = (s0, off0)"
    | "(s, off) = (s0, off0)" "(s', off') \<in> set ps"
    | "(s, off) \<in> set ps" "(s', off') = (s0, off0)"
    | "(s, off) \<in> set ps" "(s', off') \<in> set ps"
    using "2.prems"(3,4) by auto
  then show ?case
  proof cases
    case 1
    then show ?thesis by simp
  next
    case 2
    have "n + length s0 + 1 \<le> unat off'"
      using laidOutFrom_lower [OF rest 2(2)] .
    then show ?thesis using 2(1) n "2.prems"(6,7) by simp
  next
    case 3
    have "n + length s0 + 1 \<le> unat off"
      using laidOutFrom_lower [OF rest 3(1)] .
    then show ?thesis using 3(2) n "2.prems"(5,8) by simp
  next
    case 4
    then show ?thesis
      using "2.IH" [OF _ _ _ _ "2.prems"(5,6,7,8)] rest by simp
  qed
qed

lemma sorted_le_last: "sorted xs \<Longrightarrow> x \<in> set xs \<Longrightarrow> x \<le> last xs"
  by (induction xs) auto

lemma writeStrings_any:
  assumes "pool sp \<noteq> []"
  shows "\<exists>written n. writeStrings sp m dest = Inr (written, n) \<and>
        (\<forall>a. (\<forall>p\<in>set (pool sp).
                 \<not> (dest + unat (snd p) \<le> a \<and> a < dest + unat (snd p) + length (fst p)))
              \<longrightarrow> written a = m a) \<and>
        (\<exists>p\<in>set (pool sp). n = snd p + word_of_nat (length (fst p)) + 1 \<and>
            (\<forall>q\<in>set (pool sp). (snd q, fst q) \<le> (snd p, fst p)))"
proof -
  let ?L = "sort (map (\<lambda>(string, off). (off, string)) (pool sp))"
  have ne: "?L \<noteq> []"
    using assms by (metis (no_types) length_sort length_0_conv length_map)
  have set_L: "set ?L = (\<lambda>p. (snd p, fst p)) ` set (pool sp)"
    by (auto simp: case_prod_beta)
  obtain off s where last: "last ?L = (off, s)"
    by (cases "last ?L")
  have "last ?L \<in> set ?L"
    using ne by (rule last_in_set)
  then have mem: "(s, off) \<in> set (pool sp)"
    unfolding last set_L by auto
  have max: "(snd q, fst q) \<le> (off, s)" if "q \<in> set (pool sp)" for q
  proof -
    have "(snd q, fst q) \<in> set ?L" using that unfolding set_L by blast
    then have "(snd q, fst q) \<le> last ?L"
      by (intro sorted_le_last sorted_sort)
    then show ?thesis unfolding last .
  qed
  have frame: "writeStringsLoop m dest ?L a = m a"
    if "\<forall>p\<in>set (pool sp).
          \<not> (dest + unat (snd p) \<le> a \<and> a < dest + unat (snd p) + length (fst p))" for a
  proof (rule writeStringsLoop_value [OF refl])
    fix off' s'
    assume "(off', s') \<in> set ?L" "dest + unat off' \<le> a" "a < dest + unat off' + length s'"
    moreover from this(1) have "(s', off') \<in> set (pool sp)"
      unfolding set_L by auto
    ultimately show "s' ! (a - (dest + unat off')) = m a"
      using that by fastforce
  qed
  have "writeStrings sp m dest =
      Inr (writeStringsLoop m dest ?L, off + word_of_nat (length s) + 1)"
    using ne last by (simp add: writeStrings_def Let_def)
  moreover have "\<exists>p\<in>set (pool sp). off + word_of_nat (length s) + 1
        = snd p + word_of_nat (length (fst p)) + 1 \<and>
      (\<forall>q\<in>set (pool sp). (snd q, fst q) \<le> (snd p, fst p))"
    using mem max by (intro bexI [of _ "(s, off)"]) simp_all
  ultimately show ?thesis
    using frame by blast
qed

lemma writeStrings_grown:
  fixes ts m dest
  defines "sp \<equiv> addStrings StringPool_new ts"
  assumes fits: "poolBytes (pool sp) < 2 ^ 32"
  shows "\<exists>written. writeStrings sp m dest = Inr (written, stringsLength sp) \<and>
        stringsLength sp = word_of_nat (poolBytes (pool sp)) \<and>
        (\<forall>p\<in>set (pool sp).
            (\<forall>i<length (fst p). written (dest + unat (snd p) + i) = fst p ! i) \<and>
            written (dest + unat (snd p) + length (fst p))
              = m (dest + unat (snd p) + length (fst p)))"
proof -
  have "laidOutFrom 0 (pool StringPool_new)"
    "stringsLength StringPool_new = word_of_nat (poolBytes (pool StringPool_new))"
    by (simp_all add: StringPool_new_eq)
  from addStrings_laidOut [OF this, of ts]
  have lo: "laidOutFrom 0 (pool sp)" and len: "stringsLength sp = word_of_nat (poolBytes (pool sp))"
    by (simp_all add: sp_def)
  have "map_of (pool sp) [] = Some 0"
    unfolding sp_def by (rule addStrings_keeps) (simp add: StringPool_new_eq)
  then have ne: "pool sp \<noteq> []"
    by auto
  have le: "0 + poolBytes (pool sp) \<le> 2 ^ 32"
    using fits by simp
  let ?L = "map (\<lambda>(string, off). (off, string)) (pool sp)"
  have sortL: "sort ?L = ?L"
    using laidOutFrom_sorted [OF lo le] by (simp add: sorted_sort_id)
  have lastL: "last ?L = (snd (last (pool sp)), fst (last (pool sp)))"
    using ne by (simp add: last_map case_prod_beta)
  have res: "writeStrings sp m dest = Inr (writeStringsLoop m dest ?L, stringsLength sp)"
    using ne sortL lastL laidOutFrom_last [OF lo ne] len
    by (simp add: writeStrings_def Let_def)
  have chars: "writeStringsLoop m dest ?L (dest + unat off + i) = s ! i"
    if "(s, off) \<in> set (pool sp)" "i < length s" for s off i
  proof (rule writeStringsLoop_written [where off = off and s = s])
    show "(off, s) \<in> set ?L" using that(1) by force
    show "dest + unat off \<le> dest + unat off + i" by simp
    show "dest + unat off + i < dest + unat off + length s" using that(2) by simp
    fix off' s'
    assume "(off', s') \<in> set ?L" "dest + unat off' \<le> dest + unat off + i"
      "dest + unat off + i < dest + unat off' + length s'"
    moreover from this(1) have "(s', off') \<in> set (pool sp)" by auto
    ultimately have "(s, off) = (s', off')"
      using laidOutFrom_disjoint [OF lo le that(1), of s' off' "unat off + i"] that(2) by simp
    then show "s' ! (dest + unat off + i - (dest + unat off')) = s ! i" by simp
  qed
  have nul: "writeStringsLoop m dest ?L (dest + unat off + length s) = m (dest + unat off + length s)"
    if "(s, off) \<in> set (pool sp)" for s off
  proof (rule writeStringsLoop_value [OF refl])
    fix off' s'
    assume "(off', s') \<in> set ?L" "dest + unat off' \<le> dest + unat off + length s"
      "dest + unat off + length s < dest + unat off' + length s'"
    moreover from this(1) have "(s', off') \<in> set (pool sp)" by auto
    ultimately have "(s, off) = (s', off')"
      using laidOutFrom_disjoint [OF lo le that, of s' off' "unat off + length s"] by simp
    with \<open>dest + unat off + length s < dest + unat off' + length s'\<close>
    show "s' ! (dest + unat off + length s - (dest + unat off')) = m (dest + unat off + length s)"
      by simp
  qed
  have "\<forall>p\<in>set (pool sp).
      (\<forall>i<length (fst p). writeStringsLoop m dest ?L (dest + unat (snd p) + i) = fst p ! i) \<and>
      writeStringsLoop m dest ?L (dest + unat (snd p) + length (fst p))
        = m (dest + unat (snd p) + length (fst p))"
    using chars nul by (simp add: split_paired_all)
  with res len show ?thesis
    by blast
qed

text \<open>
  Claim C9.  \<^verbatim>\<open>writeStrings\<close> on a pool with at least one string returns, and every byte of
  the destination that lies inside the characters of no pooled string keeps its old
  value; the result is the end of the greatest \<^verbatim>\<open>(offset, string)\<close> pair, one terminator
  included.  For a pool grown from the constructor's pool whose strings, each with
  one terminator, fit into 32 bits, the characters of every string stand at its
  offset, the byte behind them (the place of its terminating NUL) keeps its old
  value, and the result is \<^verbatim>\<open>_stringsLength\<close>, which counts one terminator per string.
\<close>

theorem writeStrings_frame:
  "(pool sp \<noteq> [] \<longrightarrow>
      (\<exists>written n. writeStrings sp m dest = Inr (written, n) \<and>
        (\<forall>a. (\<forall>p\<in>set (pool sp).
                 \<not> (dest + unat (snd p) \<le> a \<and> a < dest + unat (snd p) + length (fst p)))
              \<longrightarrow> written a = m a) \<and>
        (\<exists>p\<in>set (pool sp). n = snd p + word_of_nat (length (fst p)) + 1 \<and>
            (\<forall>q\<in>set (pool sp). (snd q, fst q) \<le> (snd p, fst p)))))
   \<and> (poolBytes (pool (addStrings StringPool_new ts)) < 2 ^ 32 \<longrightarrow>
      (\<exists>written.
        writeStrings (addStrings StringPool_new ts) m dest
          = Inr (written, stringsLength (addStrings StringPool_new ts)) \<and>
        stringsLength (addStrings StringPool_new ts)
          = word_of_nat (poolBytes (pool (addStrings StringPool_new ts))) \<and>
        (\<forall>p\<in>set (pool (addStrings StringPool_new ts)).
            (\<forall>i<length (fst p). written (dest + unat (snd p) + i) = fst p ! i) \<and>
            written (dest + unat (snd p) + length (fst p))
              = m (dest + unat (snd p) + length (fst p)))))"
  by (intro conjI impI writeStrings_any writeStrings_grown)

theorem writeStrings_frame_witness:
  "pool (addStrings StringPool_new [[97]]) \<noteq> [] \<and>
   poolBytes (pool (addStrings StringPool_new [[97]])) < 2 ^ 32 \<and>
   (\<exists>written. writeStrings (addStrings StringPool_new [[97]]) (\<lambda>a. 255) 0 = Inr (written, 3) \<and>
      written 0 = 255 \<and> written 1 = 97 \<and> written 2 = 255)"
proof -
  have grown: "addStrings StringPool_new [[97]]
      = \<lparr>pool = [([], 0), ([97], 1)], stringsLength = 3\<rparr>"
    by (simp add: StringPool_new_eq addString_def)
  have fits: "poolBytes (pool (addStrings StringPool_new [[97]])) < 2 ^ 32"
    unfolding grown by (simp add: poolBytes_def)
  from writeStrings_frame [of "addStrings StringPool_new [[97]]" "\<lambda>a. 255" 0 "[[97]]",
      THEN conjunct2, THEN mp, OF fits]
  obtain written where
    res: "writeStrings (addStrings StringPool_new [[97]]) (\<lambda>a. 255) 0
            = Inr (written, stringsLength (addStrings StringPool_new [[97]]))"
    and bytes: "\<forall>p\<in>set (pool (addStrings StringPool_new [[97]])).
            (\<forall>i<length (fst p). written (0 + unat (snd p) + i) = fst p ! i) \<and>
            written (0 + unat (snd p) + length (fst p)) = 255"
    by blast
  have "written 0 = 255 \<and> written 1 = 97 \<and> written 2 = 255"
    using bytes unfolding grown by (simp add: eval_nat_numeral)
  moreover have "stringsLength (addStrings StringPool_new [[97]]) = 3"
    unfolding grown by simp
  moreover have "pool (addStrings StringPool_new [[97]]) \<noteq> []"
    unfolding grown by simp
  ultimately show ?thesis
    using res fits by metis
qed

section \<open>Properties of the linkedit tracker\<close>

text \<open>
  Both guards return before any store: when the 32-bit sum \<^verbatim>\<open>sizeofcmds + cmdsize\<close> of the
  source exceeds the header space, \<^verbatim>\<open>insertLoadCommand\<close> returns false and the tracker
  (memory, \<open>ncmds\<close>, \<open>sizeofcmds\<close>, tracked regions) is the one it was called with; when the
  end of the last tracked region (the start of the linkedit data if nothing is tracked)
  plus the 32-bit shift exceeds the linkedit end, \<^verbatim>\<open>insertLinkeditData\<close> returns false and
  the tracker is the one it was called with.
\<close>

lemma insert_refused_unchanged:
  "(headerSpaceAvailable t < sizeofcmds t + cmdsize (mem t) lc \<longrightarrow>
      insertLoadCommand t after lc = (False, t)) \<and>
   (tracker_linkeditEnd t <
      (if trackingData t \<noteq> []
       then data (last (trackingData t)) + unat (dataSize (last (trackingData t)))
       else tracker_linkeditStart t) + unat (shiftDelta_of (dataSize d)) \<longrightarrow>
      insertLinkeditData t aft d = (False, t))"
  by (simp add: insertLoadCommand_def insertLinkeditData_def Let_def)

text \<open>A command of 16 bytes where \<open>sizeofcmds\<close> is 8 below the header space, and 13 bytes of
  data where 24 of the 32 bytes of linkedit data are taken: both are refused.\<close>

lemma insert_refused_scenario:
  "insertLoadCommand
     \<lparr>mem = (\<lambda>a. 0)(1004 := 16), ncmds = 3, sizeofcmds = 92, commandsStart = 32,
      headerSpaceAvailable = 100, tracker_linkeditStart = 4096, tracker_linkeditEnd = 4128,
      trackingData = [\<lparr>offset = 40, data = 4096, dataSize = 24\<rparr>]\<rparr> 32 1000
     = (False,
        \<lparr>mem = (\<lambda>a. 0)(1004 := 16), ncmds = 3, sizeofcmds = 92, commandsStart = 32,
         headerSpaceAvailable = 100, tracker_linkeditStart = 4096, tracker_linkeditEnd = 4128,
         trackingData = [\<lparr>offset = 40, data = 4096, dataSize = 24\<rparr>]\<rparr>) \<and>
   insertLinkeditData
     \<lparr>mem = (\<lambda>a. 0)(1004 := 16), ncmds = 3, sizeofcmds = 92, commandsStart = 32,
      headerSpaceAvailable = 100, tracker_linkeditStart = 4096, tracker_linkeditEnd = 4128,
      trackingData = [\<lparr>offset = 40, data = 4096, dataSize = 24\<rparr>]\<rparr> None
     \<lparr>offset = 48, data = 8192, dataSize = 13\<rparr>
     = (False,
        \<lparr>mem = (\<lambda>a. 0)(1004 := 16), ncmds = 3, sizeofcmds = 92, commandsStart = 32,
         headerSpaceAvailable = 100, tracker_linkeditStart = 4096, tracker_linkeditEnd = 4128,
         trackingData = [\<lparr>offset = 40, data = 4096, dataSize = 24\<rparr>]\<rparr>)"
  using insert_refused_unchanged
    [where t = "\<lparr>mem = (\<lambda>a. 0)(1004 := 16), ncmds = 3, sizeofcmds = 92, commandsStart = 32,
      headerSpaceAvailable = 100, tracker_linkeditStart = 4096, tracker_linkeditEnd = 4128,
      trackingData = [\<lparr>offset = 40, data = 4096, dataSize = 24\<rparr>]\<rparr>"
      and lc = 1000 and after = 32 and aft = None
      and d = "\<lparr>offset = 48, data = 8192, dataSize = 13\<rparr>"]
  by (simp add: cmdsize_def read32_def shiftDelta_of_def)

text \<open>Where the sum of the two sizes fits into 32 bits, the guard of \<^verbatim>\<open>insertLoadCommand\<close> is
  the comparison of the sum with the header space, and an insertion whose sum exceeds
  the header space is refused.\<close>

lemma insertLoadCommand_guard_nat:
  assumes "unat (sizeofcmds t) + unat (cmdsize (mem t) lc) < 2 ^ 32"
  shows "headerSpaceAvailable t < sizeofcmds t + cmdsize (mem t) lc \<longleftrightarrow>
     unat (headerSpaceAvailable t) < unat (sizeofcmds t) + unat (cmdsize (mem t) lc)"
  using assms by (simp add: word_less_nat_alt unat_word_ariths)

lemma insertLoadCommand_refuses:
  assumes "unat (sizeofcmds t) + unat (cmdsize (mem t) lc) < 2 ^ 32"
    and "unat (headerSpaceAvailable t) < unat (sizeofcmds t) + unat (cmdsize (mem t) lc)"
  shows "insertLoadCommand t after lc = (False, t)"
proof -
  have "headerSpaceAvailable t < sizeofcmds t + cmdsize (mem t) lc"
    using assms by (simp add: word_less_nat_alt unat_word_ariths)
  then show ?thesis
    by (simp add: insertLoadCommand_def)
qed

text \<open>Likewise for \<^verbatim>\<open>insertLinkeditData\<close>: where the size plus its padding fits into 32 bits,
  the shift is that number, and an insertion that would pass the linkedit end is
  refused.\<close>

lemma shiftDelta_of_nat:
  assumes "unat n + (8 - unat n mod 8) < 2 ^ 32"
  shows "unat (shiftDelta_of n) = unat n + (8 - unat n mod 8)"
proof -
  have m: "unat (n mod 8) = unat n mod 8"
    by (simp add: unat_mod)
  have le: "n mod 8 \<le> 8"
    by (simp add: word_le_nat_alt m less_imp_le)
  have "unat (8 - n mod 8) = 8 - unat n mod 8"
    using le by (simp add: unat_sub m)
  then show ?thesis
    using assms by (simp add: shiftDelta_of_def unat_word_ariths)
qed

lemma insertLinkeditData_refuses:
  assumes "unat (dataSize d) + (8 - unat (dataSize d) mod 8) < 2 ^ 32"
    and "tracker_linkeditEnd t <
      (if trackingData t \<noteq> []
       then data (last (trackingData t)) + unat (dataSize (last (trackingData t)))
       else tracker_linkeditStart t) + (unat (dataSize d) + (8 - unat (dataSize d) mod 8))"
  shows "insertLinkeditData t aft d = (False, t)"
  using assms(2) unfolding shiftDelta_of_nat [OF assms(1), symmetric]
  by (simp add: insertLinkeditData_def Let_def)

text \<open>In every other case both operations report success.\<close>

lemma insert_succeeds_otherwise:
  "(\<not> headerSpaceAvailable t < sizeofcmds t + cmdsize (mem t) lc \<longrightarrow>
      fst (insertLoadCommand t after lc)) \<and>
   (\<not> tracker_linkeditEnd t <
      (if trackingData t \<noteq> []
       then data (last (trackingData t)) + unat (dataSize (last (trackingData t)))
       else tracker_linkeditStart t) + unat (shiftDelta_of (dataSize d)) \<longrightarrow>
      fst (insertLinkeditData t aft d))"
  by (simp add: insertLoadCommand_def insertLinkeditData_def Let_def split: prod.splits)

text \<open>
  Claim C5.  Both guards add in \<^verbatim>\<open>uint32_t\<close>, so a sum of \<open>2^32\<close> or more wraps and passes
  them.  With \<open>sizeofcmds\<close> 32, header space 100 and a command whose \<open>cmdsize\<close> is
  \<open>0xFFFFFFF0\<close>, the sum exceeds the header space, yet \<^verbatim>\<open>insertLoadCommand\<close> reports success,
  counts a second command, sets \<open>sizeofcmds\<close> to 16 and copies the command behind the
  first one, to address 64.  With a data size of \<open>0xFFFFFFF9\<close> the padded size is \<open>2^32\<close> and
  the shift is 0: on an empty tracker with 32 bytes of linkedit data
  \<^verbatim>\<open>insertLinkeditData\<close> reports success, tracks a region of size 0 and zeroes the 8 bytes
  in front of the linkedit data.  In neither case is the insertion refused with the
  tracker unchanged.
\<close>

theorem insufficiency_guards_wrap:
  "cmdsize ((\<lambda>a. 0)(36 := 32, 0x200000004 := 0xF0, 0x200000005 := 0xFF,
                   0x200000006 := 0xFF, 0x200000007 := 0xFF)) 0x200000000
     = 0xFFFFFFF0 \<and>
   (100 :: nat) < unat (32 :: u32) + unat (0xFFFFFFF0 :: u32) \<and>
   fst (insertLoadCommand
          \<lparr>mem = (\<lambda>a. 0)(36 := 32, 0x200000004 := 0xF0, 0x200000005 := 0xFF,
                          0x200000006 := 0xFF, 0x200000007 := 0xFF),
           ncmds = 1, sizeofcmds = 32, commandsStart = 32,
           headerSpaceAvailable = 100, tracker_linkeditStart = 4096,
           tracker_linkeditEnd = 4128, trackingData = []\<rparr> 32 0x200000000) \<and>
   ncmds (snd (insertLoadCommand
          \<lparr>mem = (\<lambda>a. 0)(36 := 32, 0x200000004 := 0xF0, 0x200000005 := 0xFF,
                          0x200000006 := 0xFF, 0x200000007 := 0xFF),
           ncmds = 1, sizeofcmds = 32, commandsStart = 32,
           headerSpaceAvailable = 100, tracker_linkeditStart = 4096,
           tracker_linkeditEnd = 4128, trackingData = []\<rparr> 32 0x200000000)) = 2 \<and>
   sizeofcmds (snd (insertLoadCommand
          \<lparr>mem = (\<lambda>a. 0)(36 := 32, 0x200000004 := 0xF0, 0x200000005 := 0xFF,
                          0x200000006 := 0xFF, 0x200000007 := 0xFF),
           ncmds = 1, sizeofcmds = 32, commandsStart = 32,
           headerSpaceAvailable = 100, tracker_linkeditStart = 4096,
           tracker_linkeditEnd = 4128, trackingData = []\<rparr> 32 0x200000000)) = 16 \<and>
   mem (snd (insertLoadCommand
          \<lparr>mem = (\<lambda>a. 0)(36 := 32, 0x200000004 := 0xF0, 0x200000005 := 0xFF,
                          0x200000006 := 0xFF, 0x200000007 := 0xFF),
           ncmds = 1, sizeofcmds = 32, commandsStart = 32,
           headerSpaceAvailable = 100, tracker_linkeditStart = 4096,
           tracker_linkeditEnd = 4128, trackingData = []\<rparr> 32 0x200000000)) 68 = 0xF0 \<and>
   shiftDelta_of 0xFFFFFFF9 = 0 \<and>
   (4128 :: nat) < 4096 + (unat (0xFFFFFFF9 :: u32) + (8 - unat (0xFFFFFFF9 :: u32) mod 8)) \<and>
   fst (insertLinkeditData
          \<lparr>mem = (\<lambda>a. 255), ncmds = 3, sizeofcmds = 92, commandsStart = 32,
           headerSpaceAvailable = 100, tracker_linkeditStart = 4096,
           tracker_linkeditEnd = 4128, trackingData = []\<rparr>
          None \<lparr>offset = 48, data = 8192, dataSize = 0xFFFFFFF9\<rparr>) \<and>
   trackingData (snd (insertLinkeditData
          \<lparr>mem = (\<lambda>a. 255), ncmds = 3, sizeofcmds = 92, commandsStart = 32,
           headerSpaceAvailable = 100, tracker_linkeditStart = 4096,
           tracker_linkeditEnd = 4128, trackingData = []\<rparr>
          None \<lparr>offset = 48, data = 8192, dataSize = 0xFFFFFFF9\<rparr>))
     = [\<lparr>offset = 48, data = 4096, dataSize = 0\<rparr>] \<and>
   mem (snd (insertLinkeditData
          \<lparr>mem = (\<lambda>a. 255), ncmds = 3, sizeofcmds = 92, commandsStart = 32,
           headerSpaceAvailable = 100, tracker_linkeditStart = 4096,
           tracker_linkeditEnd = 4128, trackingData = []\<rparr>
          None \<lparr>offset = 48, data = 8192, dataSize = 0xFFFFFFF9\<rparr>)) 4088 = 0"
  by (simp add: insertLoadCommand_def insertLinkeditData_def shiftDelta_of_def Let_def
        trackData_def cmdsize_def read32_def memmove_def memcpy_def memset_def)

text \<open>The shift of \<^verbatim>\<open>insertLinkeditData\<close> for a size that is a multiple of 8, and the insertion
  of 13 bytes into an empty tracker with 32 bytes of linkedit data: the region is
  tracked with size 16 and the three bytes behind the payload are zero.\<close>

lemma shiftDelta_of_multiple: "n mod 8 = 0 \<Longrightarrow> shiftDelta_of n = n + 8"
  by (simp add: shiftDelta_of_def)

lemma insertLinkeditData_payload13:
  "insertLinkeditData
     \<lparr>mem = (\<lambda>a. 255), ncmds = 3, sizeofcmds = 92, commandsStart = 32,
      headerSpaceAvailable = 100, tracker_linkeditStart = 4096,
      tracker_linkeditEnd = 4128, trackingData = []\<rparr>
     None \<lparr>offset = 48, data = 8192, dataSize = 13\<rparr> = (ok, t') \<Longrightarrow>
   ok \<and> trackingData t' = [\<lparr>offset = 48, data = 4096, dataSize = 16\<rparr>] \<and>
   mem t' (4096 + 12) = 255 \<and>
   mem t' (4096 + 13) = 0 \<and> mem t' (4096 + 14) = 0 \<and> mem t' (4096 + 15) = 0"
  by (auto simp: insertLinkeditData_def shiftDelta_of_def Let_def trackData_def
        memmove_def memcpy_def memset_def)

text \<open>
  Claim C3.  The shift is \<^verbatim>\<open>dataSize + (8 - dataSize % 8)\<close>, so a size that is a multiple of
  8 is padded by 8 more bytes: a payload of 8 bytes inserted into an empty tracker
  with 32 bytes of linkedit data is tracked with size 16, and a payload of 32 bytes,
  which would fill the 32 bytes exactly, is refused.
\<close>

theorem insertLinkeditData_multiple_of_8:
  "shiftDelta_of 8 = 16 \<and>
   fst (insertLinkeditData
          \<lparr>mem = (\<lambda>a. 0), ncmds = 3, sizeofcmds = 92, commandsStart = 32,
           headerSpaceAvailable = 100, tracker_linkeditStart = 4096,
           tracker_linkeditEnd = 4128, trackingData = []\<rparr>
          None \<lparr>offset = 48, data = 8192, dataSize = 8\<rparr>) \<and>
   trackingData (snd (insertLinkeditData
          \<lparr>mem = (\<lambda>a. 0), ncmds = 3, sizeofcmds = 92, commandsStart = 32,
           headerSpaceAvailable = 100, tracker_linkeditStart = 4096,
           tracker_linkeditEnd = 4128, trackingData = []\<rparr>
          None \<lparr>offset = 48, data = 8192, dataSize = 8\<rparr>))
     = [\<lparr>offset = 48, data = 4096, dataSize = 16\<rparr>] \<and>
   \<not> fst (insertLinkeditData
          \<lparr>mem = (\<lambda>a. 0), ncmds = 3, sizeofcmds = 92, commandsStart = 32,
           headerSpaceAvailable = 100, tracker_linkeditStart = 4096,
           tracker_linkeditEnd = 4128, trackingData = []\<rparr>
          None \<lparr>offset = 48, data = 8192, dataSize = 32\<rparr>)"
  by (simp add: insertLinkeditData_def shiftDelta_of_def Let_def trackData_def)

section \<open>Properties of the optimizer: absent commands and offset fields\<close>

lemma verbatim_passes_keep_dySymTab:
  "dySymTab (copyBindingInfo s) = dySymTab s"
  "dySymTab (copyWeakBindingInfo s) = dySymTab s"
  "dySymTab (copyLazyBindingInfo s) = dySymTab s"
  "dySymTab (startSymbolEntries s) = dySymTab s"
  "dySymTab (LinkeditOptimizer_new s) = dySymTab s"
  by (simp_all add: copyBindingInfo_def copyWeakBindingInfo_def copyLazyBindingInfo_def
        startSymbolEntries_def LinkeditOptimizer_new_def Let_def split: option.splits)

text \<open>
  Claim C4.  The probe for redacted indirect symbols is not skipped when the
  \<^verbatim>\<open>dysymtab\<close> command is absent: it dereferences the null pointer, and since no earlier
  pass can fail, so does the whole run of \<^verbatim>\<open>optimizeLinkedit\<close>.  The string-pool pass is not
  skipped without the \<^verbatim>\<open>symtab\<close> command either: it ends in an error, which for the pool
  of a new optimizer is the null dereference after the strings have been written.
\<close>

theorem absent_command_dereferenced:
  "searchRedactedSymbol (s\<lparr>dySymTab := None\<rparr>) = Inl NullDereference \<and>
   optimizeLinkedit (s\<lparr>dySymTab := None\<rparr>) = Inl NullDereference \<and>
   isl (copyStringPool (s\<lparr>symTab := None\<rparr>)) \<and>
   copyStringPool (s\<lparr>symTab := None, stringsPool := StringPool_new\<rparr>) = Inl NullDereference"
proof (intro conjI)
  show "searchRedactedSymbol (s\<lparr>dySymTab := None\<rparr>) = Inl NullDereference"
    by (simp add: searchRedactedSymbol_def)
  have "dySymTab (startSymbolEntries (copyLazyBindingInfo (copyWeakBindingInfo
          (copyBindingInfo (LinkeditOptimizer_new (s\<lparr>dySymTab := None\<rparr>)))))) = None"
    by (simp add: verbatim_passes_keep_dySymTab)
  then show "optimizeLinkedit (s\<lparr>dySymTab := None\<rparr>) = Inl NullDereference"
    by (simp add: optimizeLinkedit_def andThen_def searchRedactedSymbol_def)
  show "isl (copyStringPool (s\<lparr>symTab := None\<rparr>))"
    by (simp add: copyStringPool_def split: sum.splits prod.splits)
  show "copyStringPool (s\<lparr>symTab := None, stringsPool := StringPool_new\<rparr>)
      = Inl NullDereference"
    by (simp add: copyStringPool_def writeStrings_def StringPool_new_eq)
qed

text \<open>The passes for binding, weak binding, lazy binding, function starts, data in code
  and the string pool store \<^verbatim>\<open>_linkeditOffset + offset\<close>, with the cursor as it is when the
  region is written.\<close>

lemma copy_passes_offsets:
  "dyldInfo s = Some (p, c) \<Longrightarrow> bind_size c \<noteq> 0 \<Longrightarrow>
     dyldInfo (copyBindingInfo s) = Some (p, c\<lparr>bind_off := linkeditOffset s + cursor s\<rparr>)"
  "dyldInfo s = Some (p, c) \<Longrightarrow> weak_bind_size c \<noteq> 0 \<Longrightarrow>
     dyldInfo (copyWeakBindingInfo s) = Some (p, c\<lparr>weak_bind_off := linkeditOffset s + cursor s\<rparr>)"
  "dyldInfo s = Some (p, c) \<Longrightarrow> lazy_bind_size c \<noteq> 0 \<Longrightarrow>
     dyldInfo (copyLazyBindingInfo s) = Some (p, c\<lparr>lazy_bind_off := linkeditOffset s + cursor s\<rparr>)"
  "functionStartsCmd s = Some (p, l) \<Longrightarrow> datasize l \<noteq> 0 \<Longrightarrow>
     functionStartsCmd (copyFunctionStarts s) = Some (p, l\<lparr>dataoff := linkeditOffset s + cursor s\<rparr>)"
  "dataInCodeCmd s = Some (p, l) \<Longrightarrow> datasize l \<noteq> 0 \<Longrightarrow>
     dataInCodeCmd (copyDataInCode s) = Some (p, l\<lparr>dataoff := linkeditOffset s + cursor s\<rparr>)"
  by (simp_all add: copyBindingInfo_def copyWeakBindingInfo_def copyLazyBindingInfo_def
        copyFunctionStarts_def copyDataInCode_def Let_def)

lemma copyStringPool_stroff:
  "copyStringPool s = Inr s' \<Longrightarrow> symTab s = Some (p, t) \<Longrightarrow>
   \<exists>n. symTab s' = Some (p, t\<lparr>stroff := linkeditOffset s + cursor s, strsize := n\<rparr>)"
  by (auto simp: copyStringPool_def split: sum.splits prod.splits)

text \<open>\<^verbatim>\<open>copyExportInfo\<close> stores the low 32 bits of the pointer \<^verbatim>\<open>_linkeditStart + offset\<close>.\<close>

lemma copyExportInfo_stores_pointer:
  "exportTrieCmd s = Some (p, l) \<Longrightarrow> datasize l \<noteq> 0 \<Longrightarrow>
     exportTrieCmd (copyExportInfo s)
       = Some (p, l\<lparr>dataoff := word_of_nat (linkeditStart s + unat (cursor s))\<rparr>)"
  "exportTrieCmd s = None \<Longrightarrow> dyldInfo s = Some (p, c) \<Longrightarrow> export_size c \<noteq> 0 \<Longrightarrow>
     dyldInfo (copyExportInfo s)
       = Some (p, c\<lparr>export_off := word_of_nat (linkeditStart s + unat (cursor s))\<rparr>)"
  by (simp_all add: copyExportInfo_def Let_def)

text \<open>
  Claim C2.  For a file mapped at address \<open>0x10000\<close> whose linkedit data starts at file
  offset \<open>0x4000\<close>, the export pass at cursor \<open>0x20\<close> stores \<open>0x14020\<close> in the \<open>dataoff\<close> of the
  exports-trie command (in \<open>export_off\<close> of \<^verbatim>\<open>dyld_info\<close> when there is no trie command), not
  the file offset \<open>0x4020\<close> of the region.
\<close>

theorem copyExportInfo_offset_wrong:
  "exportTrieCmd
     (copyExportInfo
        (s\<lparr>exportTrieCmd := Some (p, \<lparr>dataoff = 0x4400, datasize = 8\<rparr>),
           linkeditFile := 0x10000, linkeditOffset := 0x4000, linkeditStart := 0x14000,
           cursor := 0x20\<rparr>))
     = Some (p, \<lparr>dataoff = 0x14020, datasize = 8\<rparr>) \<and>
   dyldInfo
     (copyExportInfo
        (s\<lparr>exportTrieCmd := None, dyldInfo := Some (p, c\<lparr>export_off := 0x4400, export_size := 8\<rparr>),
           linkeditFile := 0x10000, linkeditOffset := 0x4000, linkeditStart := 0x14000,
           cursor := 0x20\<rparr>))
     = Some (p, c\<lparr>export_off := 0x14020, export_size := 8\<rparr>) \<and>
   (0x14020 :: u32) \<noteq> 0x4000 + 0x20"
  by (simp add: copyExportInfo_def Let_def)

section \<open>Properties of the optimizer: the indirect symbol table\<close>

lemma read32_bytes:
  assumes b: "m' a = ucast v" "m' (a + 1) = ucast (drop_bit 8 v)"
    "m' (a + 2) = ucast (drop_bit 16 v)" "m' (a + 3) = ucast (drop_bit 24 v)"
  shows "read32 m' a = v"
proof (rule bit_word_eqI)
  fix n :: nat
  assume "n < LENGTH(32)"
  then consider "n < 8" | "8 \<le> n \<and> n < 16" | "16 \<le> n \<and> n < 24" | "24 \<le> n \<and> n < 32"
    by fastforce
  then show "bit (read32 m' a) n = bit v n"
    unfolding read32_def b
    by cases (auto simp: bit_simps)
qed

lemma read32_write32: "read32 (write32 m a v) a = v"
  by (rule read32_bytes) (simp_all add: write32_def)

lemma write32_other: "b < a \<or> a + 4 \<le> b \<Longrightarrow> write32 m a v b = m b"
  by (auto simp: write32_def)

lemma read32_cong:
  assumes "\<And>i. i < 4 \<Longrightarrow> m' (a + i) = m (a + i)"
  shows "read32 m' a = read32 m a"
  using assms [of 0] assms [of 1] assms [of 2] assms [of 3]
  by (simp add: read32_def)

lemma lookupIndex_again:
  "fst (lookupIndex (snd (lookupIndex m e')) e) = fst (lookupIndex m e)"
  by (simp add: lookupIndex_def split: option.splits)

lemma indirectLoop_Suc:
  "indirectLoop entries newEntries (Suc k) i s
     = indirectLoop entries newEntries k (Suc i)
         (s\<lparr>newLinkedit :=
              write32
                (if read32 (fileBytes s) (entries + 4 * i) = INDIRECT_SYMBOL_ABS
                    \<or> read32 (fileBytes s) (entries + 4 * i) = INDIRECT_SYMBOL_LOCAL
                    \<or> read32 (fileBytes s) (entries + 4 * i) = 0
                 then write32 (newLinkedit s) (newEntries + 4 * i)
                        (read32 (fileBytes s) (entries + 4 * i))
                 else newLinkedit s)
                (newEntries + 4 * i)
                (fst (lookupIndex (newSymbolIndicies s) (read32 (fileBytes s) (entries + 4 * i)))),
            newSymbolIndicies :=
              snd (lookupIndex (newSymbolIndicies s) (read32 (fileBytes s) (entries + 4 * i)))\<rparr>)"
  by (simp add: Let_def split: prod.splits)

lemma indirectLoop_shape:
  "\<exists>nl idx. indirectLoop entries newEntries k i s
      = s\<lparr>newLinkedit := nl, newSymbolIndicies := idx\<rparr>"
proof (induction k arbitrary: i s)
  case 0
  show ?case
    by (rule exI [of _ "newLinkedit s"], rule exI [of _ "newSymbolIndicies s"]) simp
next
  case (Suc k)
  obtain s1 where step: "indirectLoop entries newEntries (Suc k) i s
        = indirectLoop entries newEntries k (Suc i) s1"
    and s1: "\<exists>nl idx. s1 = s\<lparr>newLinkedit := nl, newSymbolIndicies := idx\<rparr>"
    using indirectLoop_Suc by blast
  obtain nl idx where "indirectLoop entries newEntries k (Suc i) s1
        = s1\<lparr>newLinkedit := nl, newSymbolIndicies := idx\<rparr>"
    using Suc by blast
  moreover have "s1\<lparr>newLinkedit := nl, newSymbolIndicies := idx\<rparr>
        = s\<lparr>newLinkedit := nl, newSymbolIndicies := idx\<rparr>"
    using s1 by auto
  ultimately show ?case
    unfolding step by (intro exI) (rule trans)
qed

lemma indirectLoop_frame:
  "a < newEntries + 4 * i \<or> newEntries + 4 * (i + k) \<le> a \<Longrightarrow>
   newLinkedit (indirectLoop entries newEntries k i s) a = newLinkedit s a"
proof (induction k arbitrary: i s)
  case 0
  then show ?case by simp
next
  case (Suc k)
  then have "a < newEntries + 4 * Suc i \<or> newEntries + 4 * (Suc i + k) \<le> a"
    by auto
  moreover have "a < newEntries + 4 * i \<or> newEntries + 4 * i + 4 \<le> a"
    using Suc.prems by auto
  ultimately show ?case
    by (simp add: Suc.IH Let_def write32_other split: prod.splits)
qed

lemma indirectLoop_entry:
  "i \<le> j \<Longrightarrow> j < i + k \<Longrightarrow>
   read32 (newLinkedit (indirectLoop entries newEntries k i s)) (newEntries + 4 * j)
     = fst (lookupIndex (newSymbolIndicies s) (read32 (fileBytes s) (entries + 4 * j)))"
proof (induction k arbitrary: i s)
  case 0
  then show ?case by simp
next
  case (Suc k)
  let ?entry = "read32 (fileBytes s) (entries + 4 * i)"
  let ?copied = "if ?entry = INDIRECT_SYMBOL_ABS \<or> ?entry = INDIRECT_SYMBOL_LOCAL \<or> ?entry = 0
       then write32 (newLinkedit s) (newEntries + 4 * i) ?entry else newLinkedit s"
  let ?s1 = "s\<lparr>newLinkedit :=
                 write32 ?copied (newEntries + 4 * i) (fst (lookupIndex (newSymbolIndicies s) ?entry)),
               newSymbolIndicies := snd (lookupIndex (newSymbolIndicies s) ?entry)\<rparr>"
  have unfold: "indirectLoop entries newEntries (Suc k) i s
      = indirectLoop entries newEntries k (Suc i) ?s1"
    by (simp add: Let_def split: prod.splits)
  show ?case
  proof (cases "j = i")
    case True
    have "read32 (newLinkedit (indirectLoop entries newEntries k (Suc i) ?s1)) (newEntries + 4 * i)
        = read32 (newLinkedit ?s1) (newEntries + 4 * i)"
      by (rule read32_cong) (simp add: indirectLoop_frame)
    then show ?thesis
      unfolding unfold True by (simp add: read32_write32)
  next
    case False
    then have "Suc i \<le> j" "j < Suc i + k"
      using Suc.prems by simp_all
    from Suc.IH [OF this, of ?s1] show ?thesis
      unfolding unfold by (simp add: lookupIndex_again)
  qed
qed

lemma copyIndirectSymbolTable_newLinkedit:
  "dySymTab s = Some (dp, d) \<Longrightarrow>
   newLinkedit (copyIndirectSymbolTable s)
     = newLinkedit (indirectLoop (linkeditFile s + unat (indirectsymoff d)) (unat (cursor s))
          (unat (nindirectsyms d)) 0 s)"
  by (simp add: copyIndirectSymbolTable_def Let_def)

lemma copyIndirectSymbolTable_entry:
  assumes "dySymTab s = Some (dp, d)" "i < unat (nindirectsyms d)"
  shows "read32 (newLinkedit (copyIndirectSymbolTable s)) (unat (cursor s) + 4 * i)
     = fst (lookupIndex (newSymbolIndicies s)
             (read32 (fileBytes s) (linkeditFile s + unat (indirectsymoff d) + 4 * i)))"
  using assms by (simp add: copyIndirectSymbolTable_newLinkedit indirectLoop_entry)

text \<open>
  Claim C10.  In the indirect-symbol-table pass, an entry whose value is not a key of
  the index map when the pass starts (the exported and imported passes recorded no
  new index for it) is written to the new table as 0: the lookup inserts the key with
  the index 0.
\<close>

theorem unrecorded_entry_becomes_zero:
  assumes "dySymTab s = Some (dp, d)" and "i < unat (nindirectsyms d)"
    and "newSymbolIndicies s
           (read32 (fileBytes s) (linkeditFile s + unat (indirectsymoff d) + 4 * i)) = None"
  shows "read32 (newLinkedit (copyIndirectSymbolTable s)) (unat (cursor s) + 4 * i) = 0"
  using assms by (simp add: copyIndirectSymbolTable_entry lookupIndex_def)

text \<open>The pass stores \<^verbatim>\<open>_linkeditOffset + offset\<close> in \<^verbatim>\<open>indirectsymoff\<close>.\<close>

lemma copyIndirectSymbolTable_indirectsymoff:
  "dySymTab s = Some (dp, d) \<Longrightarrow>
   dySymTab (copyIndirectSymbolTable s)
     = Some (dp, d\<lparr>indirectsymoff := linkeditOffset s + cursor s\<rparr>)"
proof -
  assume a: "dySymTab s = Some (dp, d)"
  obtain nl idx where "indirectLoop (linkeditFile s + unat (indirectsymoff d)) (unat (cursor s))
          (unat (nindirectsyms d)) 0 s = s\<lparr>newLinkedit := nl, newSymbolIndicies := idx\<rparr>"
    using indirectLoop_shape by blast
  then show ?thesis
    using a by (simp add: copyIndirectSymbolTable_def Let_def)
qed

text \<open>The exported and the imported pass record a new index for exactly the old indices
  of their ranges; the index of a local symbol, for one, is never recorded.\<close>

lemma word_succ_le_iff:
  fixes i e k :: u32
  assumes "i < e"
  shows "i + 1 \<le> k \<longleftrightarrow> i < k"
proof -
  have "unat i < unat e"
    using assms by (simp add: word_less_nat_alt)
  moreover have "unat e < 2 ^ 32"
    using unsigned_less [of e, where ?'a = nat] by simp
  ultimately have "unat (i + 1) = Suc (unat i)"
    by (simp add: unat_word_ariths)
  then show ?thesis
    by (simp add: word_le_nat_alt word_less_nat_alt Suc_le_eq)
qed

lemma copySymbolsLoop_dom:
  "copySymbolsLoop i e syms strs head n s = Inr (n', s') \<Longrightarrow>
   dom (newSymbolIndicies s') = dom (newSymbolIndicies s) \<union> {k. i \<le> k \<and> k < e}"
proof (induction i e syms strs head n s rule: copySymbolsLoop.induct)
  case (1 i e syms strs head n s)
  show ?case
  proof (cases "i < e")
    case False
    then have same: "s' = s"
      using "1.prems" by (simp add: copySymbolsLoop.simps)
    have none: "{k. i \<le> k \<and> k < e} = {}"
      using False by auto
    show ?thesis
      unfolding same none by simp
  next
    case True
    let ?symEntry = "syms + nlistSize s * unat i"
    obtain string where
      name: "cstring (fileBytes s) (strs + unat (read32 (fileBytes s) ?symEntry)) = Some string"
      using "1.prems" True
      by (subst (asm) copySymbolsLoop.simps) (auto simp: Let_def split: option.splits)
    let ?s1 = "(copySymbolEntry s (fileBytes s) ?symEntry string head)
                 \<lparr>newSymbolIndicies := (newSymbolIndicies s)(i \<mapsto> symbolsCount s),
                  symbolsCount := symbolsCount s + 1\<rparr>"
    have "copySymbolsLoop (i + 1) e syms strs (head + nlistSize s) (n + 1) ?s1 = Inr (n', s')"
      using "1.prems" True name by (subst (asm) copySymbolsLoop.simps) (simp add: Let_def)
    from "1.IH" [OF True refl name this]
    have step: "dom (newSymbolIndicies s')
        = dom (newSymbolIndicies ?s1) \<union> {k. i + 1 \<le> k \<and> k < e}" .
    have recorded: "dom (newSymbolIndicies ?s1) = insert i (dom (newSymbolIndicies s))"
      by simp
    have range: "insert i {k. i + 1 \<le> k \<and> k < e} = {k. i \<le> k \<and> k < e}"
      using True by (auto simp: word_succ_le_iff)
    show ?thesis
      unfolding step recorded range [symmetric] by blast
  qed
qed

lemma copyExportedSymbols_dom:
  assumes "copyExportedSymbols s = Inr s'" "dySymTab s = Some (dp, d)"
  shows "dom (newSymbolIndicies s')
     = dom (newSymbolIndicies s) \<union> {k. iextdefsym d \<le> k \<and> k < iextdefsym d + nextdefsym d}"
proof -
  obtain tp t where t: "symTab s = Some (tp, t)"
    using assms by (auto simp: copyExportedSymbols_def split: option.splits)
  obtain n s1 where loop: "copySymbolsLoop (iextdefsym d) (iextdefsym d + nextdefsym d)
        (linkeditFile s + unat (symoff t)) (linkeditFile s + unat (stroff t)) (unat (cursor s)) 0 s
        = Inr (n, s1)"
    and "newSymbolIndicies s' = newSymbolIndicies s1"
    using assms t by (auto simp: copyExportedSymbols_def Let_def split: sum.splits)
  then show ?thesis
    using copySymbolsLoop_dom [OF loop] by simp
qed

lemma copyImportedSymbols_dom:
  assumes "copyImportedSymbols s = Inr s'" "dySymTab s = Some (dp, d)"
  shows "dom (newSymbolIndicies s')
     = dom (newSymbolIndicies s) \<union> {k. iundefsym d \<le> k \<and> k < iundefsym d + nundefsym d}"
proof -
  obtain tp t where t: "symTab s = Some (tp, t)"
    using assms by (auto simp: copyImportedSymbols_def split: option.splits)
  obtain n s1 where loop: "copySymbolsLoop (iundefsym d) (iundefsym d + nundefsym d)
        (linkeditFile s + unat (symoff t)) (linkeditFile s + unat (stroff t)) (unat (cursor s)) 0 s
        = Inr (n, s1)"
    and "newSymbolIndicies s' = newSymbolIndicies s1"
    using assms t by (auto simp: copyImportedSymbols_def Let_def split: sum.splits)
  then show ?thesis
    using copySymbolsLoop_dom [OF loop] by simp
qed

section \<open>Properties of the optimizer: the probe for redacted indirect symbols\<close>

lemma countRedacted_eq:
  "countRedacted m st k i c
     = c + word_of_nat (length (filter (\<lambda>j. read32 m (st + j * 4) = 0) [i..<i + k]))"
proof (induction k arbitrary: i c)
  case 0
  then show ?case by simp
next
  case (Suc k)
  have "[i..<i + Suc k] = i # [Suc i..<Suc i + k]"
    using upt_conv_Cons [of i "i + Suc k"] by simp
  then have "length (filter (\<lambda>j. read32 m (st + j * 4) = 0) [i..<i + Suc k])
      = (if read32 m (st + i * 4) = 0 then 1 else 0)
        + length (filter (\<lambda>j. read32 m (st + j * 4) = 0) [Suc i..<Suc i + k])"
    by (simp only: filter.simps list.size split: if_splits) simp
  then show ?case
    by (simp only: countRedacted.simps Suc.IH) simp
qed

lemma countRedacted_nonzero:
  assumes "k < 2 ^ 32"
  shows "countRedacted m st k 0 0 \<noteq> 0 \<longleftrightarrow> (\<exists>j<k. read32 m (st + j * 4) = 0)"
proof -
  define zs where "zs = filter (\<lambda>j. read32 m (st + j * 4) = 0) [0..<k]"
  have "length zs \<le> k"
    unfolding zs_def using length_filter_le [of _ "[0..<k]"] by simp
  then have "length zs < 2 ^ 32"
    using assms by simp
  then have u: "unat (word_of_nat (length zs) :: u32) = length zs"
    by (simp add: unat_of_nat)
  have "(word_of_nat (length zs) :: u32) = 0 \<longleftrightarrow> zs = []"
  proof
    assume "(word_of_nat (length zs) :: u32) = 0"
    then have "unat (word_of_nat (length zs) :: u32) = 0"
      by (simp only: unat_0)
    then show "zs = []"
      unfolding u by simp
  next
    assume "zs = []"
    then show "(word_of_nat (length zs) :: u32) = 0" by simp
  qed
  moreover have "zs = [] \<longleftrightarrow> \<not> (\<exists>j<k. read32 m (st + j * 4) = 0)"
    unfolding zs_def filter_empty_conv by (simp add: Ball_def)
  moreover have "countRedacted m st k 0 0 = word_of_nat (length zs)"
    unfolding zs_def countRedacted_eq by simp
  ultimately show ?thesis
    by simp
qed

text \<open>
  Claim C6.  Let the image have a \<^verbatim>\<open>dysymtab\<close> command, let the counter of redacted symbols
  be 0 as it is in a new optimizer, and let the buffer be zero from the cursor on.  If
  some entry of the original indirect symbol table is zero, the probe, run at the
  start of the symbol entries, returns a state in which one placeholder record stands
  at the cursor: its \<^verbatim>\<open>n_strx\<close> is the offset the pool gives to \<^verbatim>\<open><redacted>\<close>, its \<^verbatim>\<open>n_type\<close> is 1,
  all later bytes of the buffer are zero and all earlier ones untouched; the cursor
  has advanced by one record, the symbol count by one, and \<open>hasRedactedIndirect\<close> is
  set.  If no entry is zero, the state is the one the probe started with.
\<close>

theorem searchRedactedSymbol_placeholder:
  assumes dy: "dySymTab s = Some (dp, d)"
    and fresh: "redactedSymbolsCount s = 0"
    and zeroed: "\<forall>a. unat (cursor s) \<le> a \<longrightarrow> newLinkedit s a = 0"
  shows
    "((\<exists>i<unat (nindirectsyms d).
         read32 (fileBytes s) (linkeditFile s + unat (indirectsymoff d) + i * 4) = 0) \<longrightarrow>
      (\<exists>s'. searchRedactedSymbol (startSymbolEntries s) = Inr s' \<and>
         newSymbolEntriesStart s' = cursor s \<and>
         read32 (newLinkedit s') (unat (cursor s)) = fst (addString (stringsPool s) redacted_name) \<and>
         map_of (pool (stringsPool s')) redacted_name
           = Some (fst (addString (stringsPool s) redacted_name)) \<and>
         newLinkedit s' (unat (cursor s) + 4) = 1 \<and>
         (\<forall>a. unat (cursor s) + 5 \<le> a \<longrightarrow> newLinkedit s' a = 0) \<and>
         (\<forall>a. a < unat (cursor s) \<longrightarrow> newLinkedit s' a = newLinkedit s a) \<and>
         cursor s' = cursor s + word_of_nat (nlistSize s) \<and>
         symbolsCount s' = symbolsCount s + 1 \<and>
         hasRedactedIndirect s')) \<and>
     (\<not> (\<exists>i<unat (nindirectsyms d).
         read32 (fileBytes s) (linkeditFile s + unat (indirectsymoff d) + i * 4) = 0) \<longrightarrow>
      searchRedactedSymbol (startSymbolEntries s) = Inr (startSymbolEntries s))"
proof -
  let ?c = "countRedacted (fileBytes s) (linkeditFile s + unat (indirectsymoff d))
              (unat (nindirectsyms d)) 0 0"
  have "unat (nindirectsyms d) < 2 ^ 32"
    using unsigned_less [of "nindirectsyms d", where ?'a = nat] by simp
  then have iff: "?c \<noteq> 0 \<longleftrightarrow> (\<exists>i<unat (nindirectsyms d).
         read32 (fileBytes s) (linkeditFile s + unat (indirectsymoff d) + i * 4) = 0)"
    by (rule countRedacted_nonzero)
  show ?thesis
  proof (intro conjI impI)
    assume "\<exists>i<unat (nindirectsyms d).
         read32 (fileBytes s) (linkeditFile s + unat (indirectsymoff d) + i * 4) = 0"
    then have nz: "?c \<noteq> 0" using iff by blast
    obtain strIndex sp where add: "addString (stringsPool s) redacted_name = (strIndex, sp)"
      by (cases "addString (stringsPool s) redacted_name")
    have known: "map_of (pool sp) redacted_name = Some strIndex"
      using addString_records [of "stringsPool s" redacted_name] add by simp
    let ?nl = "(write32 (newLinkedit s) (unat (cursor s)) strIndex)(unat (cursor s) + 4 := 1)"
    let ?s' = "s\<lparr>newSymbolEntriesStart := cursor s, redactedSymbolsCount := ?c,
                  stringsPool := sp, symbolsCount := symbolsCount s + 1,
                  newLinkedit := ?nl,
                  cursor := cursor s + word_of_nat (nlistSize s),
                  hasRedactedIndirect := True\<rparr>"
    have run: "searchRedactedSymbol (startSymbolEntries s) = Inr ?s'"
      using dy fresh nz add
      by (simp add: searchRedactedSymbol_def startSymbolEntries_def Let_def nlistSize_def)
    have "read32 ?nl (unat (cursor s)) = read32 (write32 (newLinkedit s) (unat (cursor s)) strIndex) (unat (cursor s))"
      by (rule read32_cong) simp
    then have strx: "read32 ?nl (unat (cursor s)) = strIndex"
      by (simp add: read32_write32)
    have rest: "write32 (newLinkedit s) (unat (cursor s)) strIndex a = 0"
      if "unat (cursor s) + 5 \<le> a" for a
      using that zeroed by (simp add: write32_other)
    have before: "write32 (newLinkedit s) (unat (cursor s)) strIndex a = newLinkedit s a"
      if "a < unat (cursor s)" for a
      using that by (simp add: write32_other)
    show "\<exists>s'. searchRedactedSymbol (startSymbolEntries s) = Inr s' \<and>
         newSymbolEntriesStart s' = cursor s \<and>
         read32 (newLinkedit s') (unat (cursor s)) = fst (addString (stringsPool s) redacted_name) \<and>
         map_of (pool (stringsPool s')) redacted_name
           = Some (fst (addString (stringsPool s) redacted_name)) \<and>
         newLinkedit s' (unat (cursor s) + 4) = 1 \<and>
         (\<forall>a. unat (cursor s) + 5 \<le> a \<longrightarrow> newLinkedit s' a = 0) \<and>
         (\<forall>a. a < unat (cursor s) \<longrightarrow> newLinkedit s' a = newLinkedit s a) \<and>
         cursor s' = cursor s + word_of_nat (nlistSize s) \<and>
         symbolsCount s' = symbolsCount s + 1 \<and>
         hasRedactedIndirect s'"
      by (rule exI [of _ ?s']) (simp add: run strx add known rest before)
  next
    assume "\<not> (\<exists>i<unat (nindirectsyms d).
         read32 (fileBytes s) (linkeditFile s + unat (indirectsymoff d) + i * 4) = 0)"
    then have z: "?c = 0" using iff by blast
    have "s\<lparr>newSymbolEntriesStart := cursor s, redactedSymbolsCount := 0\<rparr>
        = s\<lparr>newSymbolEntriesStart := cursor s\<rparr>"
      using fresh by simp
    then show "searchRedactedSymbol (startSymbolEntries s) = Inr (startSymbolEntries s)"
      using dy fresh z
      by (simp add: searchRedactedSymbol_def startSymbolEntries_def Let_def)
  qed
qed

text \<open>
  In the run of \<^verbatim>\<open>optimizeLinkedit\<close> the probe starts from such a state: the counter is 0,
  and the buffer is zero from the cursor on if the three binding regions, each padded
  to 8, fit into 32 bits.
\<close>

lemma alignR_8_bounds:
  assumes "unat v + 8 \<le> 2 ^ 32"
  shows "unat v \<le> unat (alignR v 8) \<and> unat (alignR v 8) < unat v + 8"
proof (cases "v mod 8 = 0")
  case True
  then show ?thesis by (simp add: alignR_def)
next
  case False
  have m: "unat (v mod 8) = unat v mod 8"
    by (simp add: unat_mod)
  have "v mod 8 \<le> 8"
    by (simp add: word_le_nat_alt m)
  then have d: "unat (8 - v mod 8) = 8 - unat v mod 8"
    by (simp add: unat_sub m)
  have pos: "0 < unat v mod 8"
    using False m by (metis unat_eq_zero not_gr_zero)
  have "unat v + unat (8 - v mod 8) < 2 ^ 32"
    using assms d pos by simp
  then have "unat (v + (8 - v mod 8)) = unat v + (8 - unat v mod 8)"
    using d by (simp add: unat_add_lem [THEN iffD1])
  then show ?thesis
    using False pos by (simp add: alignR_def)
qed

lemma verbatim_copy_cursor:
  assumes fit: "unat c + unat n + 8 \<le> 2 ^ 32"
  shows "unat (c + alignR n 8) = unat c + unat (alignR n 8)"
    and "unat c + unat n \<le> unat (c + alignR n 8)"
    and "unat (c + alignR n 8) < unat c + unat n + 8"
proof -
  have b: "unat n \<le> unat (alignR n 8)" "unat (alignR n 8) < unat n + 8"
    using alignR_8_bounds [of n] fit by simp_all
  then have "unat c + unat (alignR n 8) < 2 ^ 32"
    using fit by simp
  then show u: "unat (c + alignR n 8) = unat c + unat (alignR n 8)"
    by (simp add: unat_add_lem [THEN iffD1])
  show "unat c + unat n \<le> unat (c + alignR n 8)"
    "unat (c + alignR n 8) < unat c + unat n + 8"
    using b unfolding u by simp_all
qed

lemma verbatim_copy_zeroed:
  assumes z: "\<forall>a\<ge>unat c. nl a = 0" and fit: "unat c + unat n + 8 \<le> 2 ^ 32"
    and a: "unat (c + alignR n 8) \<le> a"
  shows "memcpy nl (unat c) src from (unat n) a = 0"
  using verbatim_copy_cursor(2) [OF fit] z a by (simp add: memcpy_def)

lemma copyBindingInfo_zeroed:
  assumes z: "\<forall>a\<ge>unat (cursor s). newLinkedit s a = 0"
    and bound: "unat (cursor s) \<le> B"
    and d: "dyldInfo s = Some (p, c)"
    and fit: "B + unat (bind_size c) + 8 \<le> 2 ^ 32"
  shows "\<forall>a\<ge>unat (cursor (copyBindingInfo s)). newLinkedit (copyBindingInfo s) a = 0"
    and "unat (cursor (copyBindingInfo s)) \<le> B + unat (bind_size c) + 7"
proof -
  have f: "unat (cursor s) + unat (bind_size c) + 8 \<le> 2 ^ 32"
    using fit bound by simp
  from verbatim_copy_cursor(3) [OF f]
  show "unat (cursor (copyBindingInfo s)) \<le> B + unat (bind_size c) + 7"
    using d bound by (simp add: copyBindingInfo_def Let_def)
  from verbatim_copy_zeroed [OF z f]
  show "\<forall>a\<ge>unat (cursor (copyBindingInfo s)). newLinkedit (copyBindingInfo s) a = 0"
    using d z by (simp add: copyBindingInfo_def Let_def)
qed

lemma copyWeakBindingInfo_zeroed:
  assumes z: "\<forall>a\<ge>unat (cursor s). newLinkedit s a = 0"
    and bound: "unat (cursor s) \<le> B"
    and d: "dyldInfo s = Some (p, c)"
    and fit: "B + unat (weak_bind_size c) + 8 \<le> 2 ^ 32"
  shows "\<forall>a\<ge>unat (cursor (copyWeakBindingInfo s)). newLinkedit (copyWeakBindingInfo s) a = 0"
    and "unat (cursor (copyWeakBindingInfo s)) \<le> B + unat (weak_bind_size c) + 7"
proof -
  have f: "unat (cursor s) + unat (weak_bind_size c) + 8 \<le> 2 ^ 32"
    using fit bound by simp
  from verbatim_copy_cursor(3) [OF f]
  show "unat (cursor (copyWeakBindingInfo s)) \<le> B + unat (weak_bind_size c) + 7"
    using d bound by (simp add: copyWeakBindingInfo_def Let_def)
  from verbatim_copy_zeroed [OF z f]
  show "\<forall>a\<ge>unat (cursor (copyWeakBindingInfo s)). newLinkedit (copyWeakBindingInfo s) a = 0"
    using d z by (simp add: copyWeakBindingInfo_def Let_def)
qed

lemma copyLazyBindingInfo_zeroed:
  assumes z: "\<forall>a\<ge>unat (cursor s). newLinkedit s a = 0"
    and bound: "unat (cursor s) \<le> B"
    and d: "dyldInfo s = Some (p, c)"
    and fit: "B + unat (lazy_bind_size c) + 8 \<le> 2 ^ 32"
  shows "\<forall>a\<ge>unat (cursor (copyLazyBindingInfo s)). newLinkedit (copyLazyBindingInfo s) a = 0"
    and "unat (cursor (copyLazyBindingInfo s)) \<le> B + unat (lazy_bind_size c) + 7"
proof -
  have f: "unat (cursor s) + unat (lazy_bind_size c) + 8 \<le> 2 ^ 32"
    using fit bound by simp
  from verbatim_copy_cursor(3) [OF f]
  show "unat (cursor (copyLazyBindingInfo s)) \<le> B + unat (lazy_bind_size c) + 7"
    using d bound by (simp add: copyLazyBindingInfo_def Let_def)
  from verbatim_copy_zeroed [OF z f]
  show "\<forall>a\<ge>unat (cursor (copyLazyBindingInfo s)). newLinkedit (copyLazyBindingInfo s) a = 0"
    using d z by (simp add: copyLazyBindingInfo_def Let_def)
qed

lemma binding_passes_sizes:
  "dyldInfo s = Some (p, c) \<Longrightarrow>
   \<exists>c'. dyldInfo (copyBindingInfo s) = Some (p, c') \<and> weak_bind_size c' = weak_bind_size c \<and>
     lazy_bind_size c' = lazy_bind_size c"
  "dyldInfo s = Some (p, c) \<Longrightarrow>
   \<exists>c'. dyldInfo (copyWeakBindingInfo s) = Some (p, c') \<and> lazy_bind_size c' = lazy_bind_size c"
  by (simp_all add: copyBindingInfo_def copyWeakBindingInfo_def Let_def)

lemma binding_passes_keep_count:
  "redactedSymbolsCount (copyBindingInfo s) = redactedSymbolsCount s"
  "redactedSymbolsCount (copyWeakBindingInfo s) = redactedSymbolsCount s"
  "redactedSymbolsCount (copyLazyBindingInfo s) = redactedSymbolsCount s"
  by (simp_all add: copyBindingInfo_def copyWeakBindingInfo_def copyLazyBindingInfo_def Let_def
        split: option.splits)

lemma probe_preconditions:
  assumes fit: "\<And>p c. dyldInfo eCtx = Some (p, c) \<Longrightarrow>
      unat (bind_size c) + unat (weak_bind_size c) + unat (lazy_bind_size c) + 24 \<le> 2 ^ 32"
  shows "redactedSymbolsCount
           (copyLazyBindingInfo (copyWeakBindingInfo (copyBindingInfo (LinkeditOptimizer_new eCtx))))
         = 0"
    and "\<forall>a\<ge>unat (cursor
            (copyLazyBindingInfo (copyWeakBindingInfo (copyBindingInfo (LinkeditOptimizer_new eCtx))))).
          newLinkedit
            (copyLazyBindingInfo (copyWeakBindingInfo (copyBindingInfo (LinkeditOptimizer_new eCtx))))
            a = 0"
proof -
  let ?s0 = "LinkeditOptimizer_new eCtx"
  let ?s1 = "copyBindingInfo ?s0"
  let ?s2 = "copyWeakBindingInfo ?s1"
  show "redactedSymbolsCount (copyLazyBindingInfo ?s2) = 0"
    by (simp add: binding_passes_keep_count LinkeditOptimizer_new_def)
  have z0: "\<forall>a\<ge>unat (cursor ?s0). newLinkedit ?s0 a = 0" and b0: "unat (cursor ?s0) \<le> 0"
    and d0: "dyldInfo ?s0 = dyldInfo eCtx"
    by (simp_all add: LinkeditOptimizer_new_def)
  show "\<forall>a\<ge>unat (cursor (copyLazyBindingInfo ?s2)). newLinkedit (copyLazyBindingInfo ?s2) a = 0"
  proof (cases "dyldInfo eCtx")
    case None
    then have "copyLazyBindingInfo ?s2 = ?s0"
      using d0 by (simp add: copyBindingInfo_def copyWeakBindingInfo_def copyLazyBindingInfo_def)
    then show ?thesis using z0 by simp
  next
    case (Some pc)
    obtain p c where pc: "pc = (p, c)" by (cases pc)
    have d: "dyldInfo ?s0 = Some (p, c)"
      using Some pc d0 by simp
    have f: "unat (bind_size c) + unat (weak_bind_size c) + unat (lazy_bind_size c) + 24 \<le> 2 ^ 32"
      using fit [of p c] Some pc by simp
    have f0: "0 + unat (bind_size c) + 8 \<le> 2 ^ 32"
      using f by simp
    note r1 = copyBindingInfo_zeroed [OF z0 b0 d f0]
    obtain c1 where d1: "dyldInfo ?s1 = Some (p, c1)"
      and w1: "weak_bind_size c1 = weak_bind_size c" and l1: "lazy_bind_size c1 = lazy_bind_size c"
      using binding_passes_sizes(1) [OF d] by blast
    have f1: "0 + unat (bind_size c) + 7 + unat (weak_bind_size c1) + 8 \<le> 2 ^ 32"
      using w1 f by simp
    note r2 = copyWeakBindingInfo_zeroed [OF r1 d1 f1]
    obtain c2 where d2: "dyldInfo ?s2 = Some (p, c2)" and l2: "lazy_bind_size c2 = lazy_bind_size c"
      using binding_passes_sizes(2) [OF d1] l1 by auto
    have f2: "0 + unat (bind_size c) + 7 + unat (weak_bind_size c1) + 7
        + unat (lazy_bind_size c2) + 8 \<le> 2 ^ 32"
      using w1 l2 f by simp
    show ?thesis
      by (rule copyLazyBindingInfo_zeroed(1) [OF r2 d2 f2])
  qed
qed

section \<open>Properties of the optimizer: local symbols\<close>

lemma copySymbolEntry_shape:
  "\<exists>nl sp. copySymbolEntry s src entry string newEntry
      = s\<lparr>newLinkedit := nl, stringsPool := sp\<rparr>"
  by (auto simp: copySymbolEntry_def split: prod.splits)

lemma copySymbolEntry_keeps [simp]:
  "dySymTab (copySymbolEntry s src entry string newEntry) = dySymTab s"
  "symTab (copySymbolEntry s src entry string newEntry) = symTab s"
  "symbolsCount (copySymbolEntry s src entry string newEntry) = symbolsCount s"
  "cursor (copySymbolEntry s src entry string newEntry) = cursor s"
  "fileBytes (copySymbolEntry s src entry string newEntry) = fileBytes s"
  "nlistSize (copySymbolEntry s src entry string newEntry) = nlistSize s"
  "newSymbolIndicies (copySymbolEntry s src entry string newEntry) = newSymbolIndicies s"
  "dCtx (copySymbolEntry s src entry string newEntry) = dCtx s"
  by (simp_all add: copySymbolEntry_def nlistSize_def split: prod.splits)

lemma nlistSize_updates [simp]:
  "nlistSize (s\<lparr>symbolsCount := c\<rparr>) = nlistSize s"
  "nlistSize (s\<lparr>cursor := off\<rparr>) = nlistSize s"
  "nlistSize (s\<lparr>dySymTab := dy\<rparr>) = nlistSize s"
  "nlistSize (s\<lparr>newSymbolIndicies := idx\<rparr>) = nlistSize s"
  by (simp_all add: nlistSize_def)

lemma publicLocalsLoop_counts:
  "publicLocalsLoop strings k entry head n s = Inr (n', s') \<Longrightarrow>
   symbolsCount s' - symbolsCount s = n' - n \<and> dySymTab s' = dySymTab s \<and>
   cursor s' = cursor s \<and> nlistSize s' = nlistSize s \<and> dCtx s' = dCtx s"
proof (induction k arbitrary: entry head n s)
  case 0
  then show ?case by simp
next
  case (Suc k)
  from Suc.prems obtain string where
    name: "cstring (fileBytes s) (strings + unat (read32 (fileBytes s) entry)) = Some string"
    by (auto split: option.splits)
  show ?case
  proof (cases "string = redacted_name")
    case True
    then have "publicLocalsLoop strings k (entry + nlistSize s) head n s = Inr (n', s')"
      using Suc.prems name by simp
    then show ?thesis by (rule Suc.IH)
  next
    case False
    let ?s1 = "(copySymbolEntry s (fileBytes s) entry string head)\<lparr>symbolsCount := symbolsCount s + 1\<rparr>"
    have "publicLocalsLoop strings k (entry + nlistSize s) (head + nlistSize s) (n + 1) ?s1
        = Inr (n', s')"
      using Suc.prems name False by simp
    from Suc.IH [OF this] show ?thesis
      by simp
  qed
qed

lemma publicLocalsLoop_returns:
  "\<forall>a. cstring (fileBytes s) a \<noteq> None \<Longrightarrow>
   \<exists>n' s'. publicLocalsLoop strings k entry head n s = Inr (n', s')"
proof (induction k arbitrary: entry head n s)
  case 0
  then show ?case by simp
next
  case (Suc k)
  obtain string where
    name: "cstring (fileBytes s) (strings + unat (read32 (fileBytes s) entry)) = Some string"
    using Suc.prems by fastforce
  let ?s1 = "(copySymbolEntry s (fileBytes s) entry string head)\<lparr>symbolsCount := symbolsCount s + 1\<rparr>"
  have "\<forall>a. cstring (fileBytes ?s1) a \<noteq> None"
    using Suc.prems by simp
  from Suc.IH [OF this] Suc.IH [OF Suc.prems] show ?case
    using name by simp
qed

lemma redactedLocalsLoop_counts:
  "redactedLocalsLoop m stringsStart symsEnd symEntry head n s = Inr (n', s') \<Longrightarrow>
   symbolsCount s' - symbolsCount s = n' - n \<and> dySymTab s' = dySymTab s \<and>
   cursor s' = cursor s \<and> nlistSize s' = nlistSize s \<and> dCtx s' = dCtx s"
proof (induction m stringsStart symsEnd symEntry head n s rule: redactedLocalsLoop.induct)
  case (1 m stringsStart symsEnd symEntry head n s)
  show ?case
  proof (cases "symEntry < symsEnd")
    case False
    then show ?thesis using "1.prems" by (simp add: redactedLocalsLoop.simps)
  next
    case True
    then obtain string where
      name: "cstring m (stringsStart + unat (read32 m symEntry)) = Some string"
      using "1.prems" by (subst (asm) redactedLocalsLoop.simps) (auto split: option.splits)
    let ?s1 = "(copySymbolEntry s m symEntry string head)\<lparr>symbolsCount := symbolsCount s + 1\<rparr>"
    have "redactedLocalsLoop m stringsStart symsEnd (symEntry + nlistSize s)
            (head + nlistSize s) (n + 1) ?s1 = Inr (n', s')"
      using "1.prems" True name by (subst (asm) redactedLocalsLoop.simps) simp
    from "1.IH" [OF True name this] show ?thesis
      by simp
  qed
qed

lemma redactedLocalsLoop_returns:
  "\<forall>a. cstring m a \<noteq> None \<Longrightarrow>
   \<exists>n' s'. redactedLocalsLoop m stringsStart symsEnd symEntry head n s = Inr (n', s')"
proof (induction m stringsStart symsEnd symEntry head n s rule: redactedLocalsLoop.induct)
  case (1 m stringsStart symsEnd symEntry head n s)
  show ?case
  proof (cases "symEntry < symsEnd")
    case False
    then show ?thesis by (simp add: redactedLocalsLoop.simps)
  next
    case True
    obtain string where
      name: "cstring m (stringsStart + unat (read32 m symEntry)) = Some string"
      using "1.prems" by fastforce
    from "1.IH" [OF True name "1.prems"] show ?thesis
      using True name by (subst redactedLocalsLoop.simps) simp
  qed
qed

lemma copyPublicLocalSymbols_counts:
  assumes "copyPublicLocalSymbols s = Inr (n, s')"
  shows "symbolsCount s' - symbolsCount s = n \<and> dySymTab s' = dySymTab s \<and>
     cursor s' = cursor s + word_of_nat (nlistSize s) * n \<and> nlistSize s' = nlistSize s \<and>
     dCtx s' = dCtx s"
proof (cases "dySymTab s")
  case None
  then show ?thesis using assms by (simp add: copyPublicLocalSymbols_def)
next
  case (Some a)
  obtain dp d where a: "a = (dp, d)" by (cases a)
  show ?thesis
  proof (cases "nlocalsym d = 0")
    case True
    then show ?thesis using assms Some a by (simp add: copyPublicLocalSymbols_def)
  next
    case False
    then obtain tp t where t: "symTab s = Some (tp, t)"
      using assms Some a by (auto simp: copyPublicLocalSymbols_def split: option.splits)
    obtain s1 where loop: "publicLocalsLoop (linkeditFile s + unat (stroff t)) (unat (nlocalsym d))
           (linkeditFile s + unat (symoff t) + nlistSize s * unat (ilocalsym d))
           (unat (cursor s)) 0 s = Inr (n, s1)"
      and s': "s' = s1\<lparr>cursor := cursor s1 + word_of_nat (nlistSize s1) * n\<rparr>"
      using assms Some a False t
      by (auto simp: copyPublicLocalSymbols_def split: sum.splits)
    from publicLocalsLoop_counts [OF loop] show ?thesis
      unfolding s' by simp
  qed
qed


lemma copyPublicLocalSymbols_returns:
  assumes dy: "dySymTab s = Some (dp, d)"
    and sym: "symTab s \<noteq> None \<or> nlocalsym d = 0"
    and names: "\<forall>a. cstring (fileBytes s) a \<noteq> None"
  shows "\<exists>n s'. copyPublicLocalSymbols s = Inr (n, s')"
proof (cases "nlocalsym d = 0")
  case True
  then show ?thesis using dy by (simp add: copyPublicLocalSymbols_def)
next
  case False
  then obtain tp t where t: "symTab s = Some (tp, t)"
    using sym by auto
  obtain n s1 where "publicLocalsLoop (linkeditFile s + unat (stroff t)) (unat (nlocalsym d))
           (linkeditFile s + unat (symoff t) + nlistSize s * unat (ilocalsym d))
           (unat (cursor s)) 0 s = Inr (n, s1)"
    using publicLocalsLoop_returns [OF names] by blast
  then show ?thesis
    using dy False t by (simp add: copyPublicLocalSymbols_def)
qed

lemma copyRedactedLocalSymbols_counts:
  assumes "copyRedactedLocalSymbols s = Inr (n, s')"
  shows "symbolsCount s' - symbolsCount s = n \<and> dySymTab s' = dySymTab s \<and>
     cursor s' = cursor s + word_of_nat (nlistSize s) * n \<and> nlistSize s' = nlistSize s"
proof (cases "getSymbolsCache (dCtx s)")
  case None
  then show ?thesis using assms by (simp add: copyRedactedLocalSymbols_def)
next
  case (Some sc)
  show ?thesis
  proof (cases "localSymbolsOffset sc = 0")
    case True
    then show ?thesis using assms Some by (simp add: copyRedactedLocalSymbols_def)
  next
    case False
    let ?info = "unat (localSymbolsOffset sc)"
    show ?thesis
    proof (cases "findLocalSymbolEntries s (sc_file sc) ?info")
      case None
      then show ?thesis
        using assms Some False by (simp add: copyRedactedLocalSymbols_def Let_def)
    next
      case found: (Some range)
      obtain symsStart symsEnd where range: "range = (symsStart, symsEnd)" by (cases range)
      obtain s1 where
        loop: "redactedLocalsLoop (sc_file sc) (?info + unat (read32 (sc_file sc) (?info + 8)))
                 symsEnd symsStart (unat (cursor s)) 0 s = Inr (n, s1)"
        and s': "s' = s1\<lparr>cursor := cursor s1 + word_of_nat (nlistSize s1) * n\<rparr>"
        using assms Some False found range
        by (auto simp: copyRedactedLocalSymbols_def Let_def split: sum.splits)
      from redactedLocalsLoop_counts [OF loop] show ?thesis
        unfolding s' by simp
    qed
  qed
qed

lemma copyRedactedLocalSymbols_returns:
  assumes "\<forall>sc. getSymbolsCache (dCtx s) = Some sc \<longrightarrow> (\<forall>a. cstring (sc_file sc) a \<noteq> None)"
  shows "\<exists>n s'. copyRedactedLocalSymbols s = Inr (n, s')"
proof (cases "getSymbolsCache (dCtx s)")
  case None
  then show ?thesis by (simp add: copyRedactedLocalSymbols_def)
next
  case (Some sc)
  then have names: "\<forall>a. cstring (sc_file sc) a \<noteq> None"
    using assms by simp
  let ?info = "unat (localSymbolsOffset sc)"
  show ?thesis
  proof (cases "findLocalSymbolEntries s (sc_file sc) ?info")
    case None
    then show ?thesis
      using Some by (simp add: copyRedactedLocalSymbols_def Let_def)
  next
    case found: (Some range)
    obtain symsStart symsEnd where range: "range = (symsStart, symsEnd)" by (cases range)
    obtain n s1 where
      "redactedLocalsLoop (sc_file sc) (?info + unat (read32 (sc_file sc) (?info + 8)))
                 symsEnd symsStart (unat (cursor s)) 0 s = Inr (n, s1)"
      using redactedLocalsLoop_returns [OF names] by blast
    then show ?thesis
      using Some found range by (simp add: copyRedactedLocalSymbols_def Let_def)
  qed
qed

text \<open>
  Claim C7, as amended.  Let the image have a \<^verbatim>\<open>dysymtab\<close> command, and a \<^verbatim>\<open>symtab\<close> command
  unless \<^verbatim>\<open>nlocalsym\<close> is 0, and let every name read from the file and from the symbols
  subcache be terminated.  Then the local-symbols pass returns; the running symbol
  count grows by the total of the two counts its helpers return (public locals
  retained, recovered redacted locals), and the cursor advances by one record each.
  If that total is not zero, \<^verbatim>\<open>ilocalsym\<close> is the running symbol count before the pass and
  \<^verbatim>\<open>nlocalsym\<close> is the total; if it is zero, the \<^verbatim>\<open>dysymtab\<close> command is left as it was.
\<close>

theorem copyLocalSymbols_dysymtab:
  assumes dy: "dySymTab s = Some (dp, d)"
    and sym: "symTab s \<noteq> None \<or> nlocalsym d = 0"
    and names: "\<forall>a. cstring (fileBytes s) a \<noteq> None"
    and cacheNames:
      "\<forall>sc. getSymbolsCache (dCtx s) = Some sc \<longrightarrow> (\<forall>a. cstring (sc_file sc) a \<noteq> None)"
  shows "\<exists>s'. copyLocalSymbols s = Inr s' \<and>
      (\<exists>n1 s1 n2 s2. copyPublicLocalSymbols s = Inr (n1, s1) \<and>
         copyRedactedLocalSymbols s1 = Inr (n2, s2) \<and>
         symbolsCount s' - symbolsCount s = n1 + n2) \<and>
      cursor s' = cursor s + word_of_nat (nlistSize s) * (symbolsCount s' - symbolsCount s) \<and>
      (symbolsCount s' - symbolsCount s \<noteq> 0 \<longrightarrow>
         dySymTab s' = Some (dp, d\<lparr>ilocalsym := symbolsCount s,
                                   nlocalsym := symbolsCount s' - symbolsCount s\<rparr>)) \<and>
      (symbolsCount s' - symbolsCount s = 0 \<longrightarrow> dySymTab s' = Some (dp, d))"
proof -
  obtain n1 s1 where pub: "copyPublicLocalSymbols s = Inr (n1, s1)"
    using copyPublicLocalSymbols_returns [OF dy sym names] by blast
  note p = copyPublicLocalSymbols_counts [OF pub]
  have "\<forall>sc. getSymbolsCache (dCtx s1) = Some sc \<longrightarrow> (\<forall>a. cstring (sc_file sc) a \<noteq> None)"
    using cacheNames p by simp
  then obtain n2 s2 where red: "copyRedactedLocalSymbols s1 = Inr (n2, s2)"
    using copyRedactedLocalSymbols_returns by blast
  note r = copyRedactedLocalSymbols_counts [OF red]
  have "symbolsCount s2 - symbolsCount s
      = (symbolsCount s1 - symbolsCount s) + (symbolsCount s2 - symbolsCount s1)"
    by simp
  then have total: "symbolsCount s2 - symbolsCount s = n1 + n2"
    using p r by simp
  have dy2: "dySymTab s2 = Some (dp, d)"
    using p r dy by simp
  have cur: "cursor s2 = cursor s + word_of_nat (nlistSize s) * (n1 + n2)"
    using p r by (simp add: distrib_left)
  show ?thesis
  proof (cases "n1 + n2 = 0")
    case True
    then have "copyLocalSymbols s = Inr s2"
      using pub red dy2 by (simp add: copyLocalSymbols_def Let_def)
    moreover have "\<exists>n1 s1 n2 s2'. copyPublicLocalSymbols s = Inr (n1, s1) \<and>
         copyRedactedLocalSymbols s1 = Inr (n2, s2') \<and>
         symbolsCount s2 - symbolsCount s = n1 + n2"
      using pub red total by blast
    ultimately show ?thesis
      using True total dy2 cur by simp
  next
    case False
    let ?s' = "s2\<lparr>dySymTab := Some (dp, d\<lparr>ilocalsym := symbolsCount s, nlocalsym := n1 + n2\<rparr>)\<rparr>"
    have "copyLocalSymbols s = Inr ?s'"
      using False pub red dy2 by (simp add: copyLocalSymbols_def Let_def)
    moreover have "symbolsCount s2 \<noteq> symbolsCount s"
      using False total by auto
    moreover have "\<exists>n1 s1 n2' s2'. copyPublicLocalSymbols s = Inr (n1, s1) \<and>
         copyRedactedLocalSymbols s1 = Inr (n2', s2') \<and>
         symbolsCount s2 - symbolsCount s = n1 + n2'"
      using pub red total by blast
    ultimately show ?thesis
      using total cur by simp
  qed
qed

section \<open>The passes on the concrete image\<close>

lemma redacted_name_bytes:
  "redacted_name = [60, 114, 101, 100, 97, 99, 116, 101, 100, 62]"
  by (simp add: redacted_name_def)

lemmas scenario_defs =
  scenario_file_def write_bytes_def scenario_symbols_def scenario_strings_def
  scenario_indirect_def redacted_name_bytes

lemma scenario_reads:
  "read32 scenario_file 0x10300 = 1" "read32 scenario_file 0x10304 = 0"
  "read32 scenario_file 0x10308 = 0x80000000" "read32 scenario_file 0x1030C = 0x40000000"
  "read32 scenario_file 0x10310 = 2"
  "read32 scenario_file 0x10100 = 1" "read32 scenario_file 0x10110 = 6"
  "read32 scenario_file 0x10120 = 11"
  by (simp_all add: read32_def scenario_defs)

lemma scenario_names:
  "cstring scenario_file 0x10201 = Some (map of_char ''_foo'')"
  "cstring scenario_file 0x10206 = Some (map of_char ''_bar'')"
  "cstring scenario_file 0x1020B = Some redacted_name"
  by (simp_all add: cstring.simps scenario_defs)

lemma cstring_zero_tail:
  assumes "\<forall>a\<ge>N. m a = 0"
  shows "cstring m a \<noteq> None"
proof (induction "N - a" arbitrary: a)
  case 0
  then have "m a = 0" using assms by simp
  then show ?case by (subst cstring.simps) simp
next
  case (Suc k)
  then have "cstring m (Suc a) \<noteq> None" by simp
  then show ?case by (subst cstring.simps) auto
qed

lemma scenario_terminated: "cstring scenario_file a \<noteq> None"
  by (rule cstring_zero_tail [where N = "0x10400"]) (simp add: scenario_defs)

lemma countRedacted_unfold:
  "countRedacted m st k i c =
     (if k = 0 then c
      else countRedacted m st (k - 1) (Suc i) (if read32 m (st + i * 4) = 0 then c + 1 else c))"
  by (cases k) simp_all

lemma probe_scenario:
  "searchRedactedSymbol (startSymbolEntries scenario_image) = Inr after_probe"
  by (simp add: searchRedactedSymbol_def startSymbolEntries_def scenario_image_def after_probe_def
        scenario_dysymtab_def scenario_reads countRedacted_unfold StringPool_new_eq addString_def
        redacted_name_bytes nlistSize_def Let_def)

lemma locals_scenario: "copyLocalSymbols after_probe = Inr after_probe"
  by (simp add: copyLocalSymbols_def copyPublicLocalSymbols_def copyRedactedLocalSymbols_def
        after_probe_def scenario_image_def scenario_dysymtab_def)

lemma exported_scenario: "copyExportedSymbols after_probe = Inr after_exported"
  by (simp add: copyExportedSymbols_def copySymbolsLoop.simps copySymbolEntry_def
        after_probe_def after_exported_def scenario_image_def scenario_dysymtab_def
        scenario_reads scenario_names addString_def redacted_name_bytes nlistSize_def Let_def)

lemma imported_scenario: "copyImportedSymbols after_exported = Inr after_imported"
  by (simp add: copyImportedSymbols_def copySymbolsLoop.simps copySymbolEntry_def
        after_probe_def after_exported_def after_imported_def scenario_image_def
        scenario_dysymtab_def scenario_reads scenario_names addString_def redacted_name_bytes
        nlistSize_def Let_def)

lemma symbol_passes_scenario:
  "andThen (searchRedactedSymbol (startSymbolEntries scenario_image))
     (\<lambda>s. andThen (copyLocalSymbols s) (\<lambda>s. andThen (copyExportedSymbols s) copyImportedSymbols))
   = Inr after_imported"
  by (simp add: andThen_def probe_scenario locals_scenario exported_scenario imported_scenario)

lemma after_imported_fields:
  "dySymTab (endSymbolEntries after_imported)
     = Some (0x10038,
         scenario_dysymtab\<lparr>iextdefsym := 1, nextdefsym := 1, iundefsym := 2, nundefsym := 1\<rparr>)"
  "cursor (endSymbolEntries after_imported) = 64"
  "fileBytes (endSymbolEntries after_imported) = scenario_file"
  "linkeditFile (endSymbolEntries after_imported) = 0x10000"
  "newSymbolIndicies (endSymbolEntries after_imported) = [0 \<mapsto> 1, 1 \<mapsto> 2]"
  "symTab (endSymbolEntries after_imported)
     = Some (0x10020, \<lparr>symoff = 0x100, nsyms = 3, stroff = 0x200, strsize = 22\<rparr>)"
  by (simp_all add: endSymbolEntries_def after_imported_def after_exported_def after_probe_def
        scenario_image_def nlistSize_def Let_def)

text \<open>
  Claim C1.  On the concrete image the symbol passes give the exported symbol the new
  index 1 and the imported symbol the new index 2.  The indirect-symbol-table pass
  then writes, for the original entry 0, the index 1 recorded for old symbol 0, and
  for the entries \<^verbatim>\<open>INDIRECT_SYMBOL_LOCAL\<close> and \<^verbatim>\<open>INDIRECT_SYMBOL_ABS\<close> the value 0: none of the
  three special entries is preserved.
\<close>

theorem indirect_sentinels_overwritten:
  "andThen (searchRedactedSymbol (startSymbolEntries scenario_image))
     (\<lambda>s. andThen (copyLocalSymbols s) (\<lambda>s. andThen (copyExportedSymbols s) copyImportedSymbols))
     = Inr after_imported \<and>
   read32 (fileBytes after_imported) (0x10300 + 4 * 1) = 0 \<and>
   read32 (newLinkedit (copyIndirectSymbolTable (endSymbolEntries after_imported))) (64 + 4 * 1) = 1 \<and>
   read32 (fileBytes after_imported) (0x10300 + 4 * 2) = INDIRECT_SYMBOL_LOCAL \<and>
   read32 (newLinkedit (copyIndirectSymbolTable (endSymbolEntries after_imported))) (64 + 4 * 2) = 0 \<and>
   read32 (fileBytes after_imported) (0x10300 + 4 * 3) = INDIRECT_SYMBOL_ABS \<and>
   read32 (newLinkedit (copyIndirectSymbolTable (endSymbolEntries after_imported))) (64 + 4 * 3) = 0"
proof -
  have entry: "read32 (newLinkedit (copyIndirectSymbolTable (endSymbolEntries after_imported)))
        (64 + 4 * i)
      = fst (lookupIndex [0 \<mapsto> 1, 1 \<mapsto> 2] (read32 scenario_file (0x10300 + 4 * i)))"
    if "i < 5" for i
    using copyIndirectSymbolTable_entry [OF after_imported_fields(1), of i] that
    by (simp add: after_imported_fields scenario_dysymtab_def)
  have "fileBytes after_imported = scenario_file"
    by (simp add: after_imported_def after_exported_def after_probe_def scenario_image_def)
  then show ?thesis
    using entry [of 1] entry [of 2] entry [of 3]
    by (simp add: symbol_passes_scenario scenario_reads lookupIndex_def
          INDIRECT_SYMBOL_LOCAL_def INDIRECT_SYMBOL_ABS_def)
qed

theorem unrecorded_entry_becomes_zero_witness:
  "dySymTab (endSymbolEntries after_imported)
     = Some (0x10038,
         scenario_dysymtab\<lparr>iextdefsym := 1, nextdefsym := 1, iundefsym := 2, nundefsym := 1\<rparr>) \<and>
   read32 (fileBytes (endSymbolEntries after_imported)) (0x10300 + 4 * 4) = 2 \<and>
   newSymbolIndicies (endSymbolEntries after_imported) 2 = None \<and>
   read32 (newLinkedit (copyIndirectSymbolTable (endSymbolEntries after_imported))) (64 + 4 * 4) = 0"
  using unrecorded_entry_becomes_zero [OF after_imported_fields(1), of 4]
  by (simp add: after_imported_fields scenario_dysymtab_def scenario_reads)

theorem searchRedactedSymbol_placeholder_witness:
  "dySymTab scenario_image = Some (0x10038, scenario_dysymtab) \<and>
   redactedSymbolsCount scenario_image = 0 \<and>
   read32 (fileBytes scenario_image) (0x10300 + 1 * 4) = 0 \<and>
   (\<exists>s'. searchRedactedSymbol (startSymbolEntries scenario_image) = Inr s' \<and>
      read32 (newLinkedit s') 0 = 1 \<and> newLinkedit s' 4 = 1 \<and> newLinkedit s' 5 = 0 \<and>
      map_of (pool (stringsPool s')) redacted_name = Some 1 \<and>
      cursor s' = 16 \<and> symbolsCount s' = 1 \<and> hasRedactedIndirect s')"
proof -
  have dy: "dySymTab scenario_image = Some (0x10038, scenario_dysymtab)"
    and fresh: "redactedSymbolsCount scenario_image = 0"
    and zeroed: "\<forall>a. unat (cursor scenario_image) \<le> a \<longrightarrow> newLinkedit scenario_image a = 0"
    by (simp_all add: scenario_image_def)
  have z: "read32 (fileBytes scenario_image) (0x10300 + 1 * 4) = 0"
    by (simp add: scenario_image_def scenario_reads)
  then have ex: "\<exists>i<unat (nindirectsyms scenario_dysymtab).
       read32 (fileBytes scenario_image)
         (linkeditFile scenario_image + unat (indirectsymoff scenario_dysymtab) + i * 4) = 0"
    by (intro exI [of _ 1]) (simp add: scenario_dysymtab_def scenario_image_def)
  from searchRedactedSymbol_placeholder [OF dy fresh zeroed, THEN conjunct1, THEN mp, OF ex]
  obtain s' where "searchRedactedSymbol (startSymbolEntries scenario_image) = Inr s'"
    "read32 (newLinkedit s') (unat (cursor scenario_image))
       = fst (addString (stringsPool scenario_image) redacted_name)"
    "map_of (pool (stringsPool s')) redacted_name
       = Some (fst (addString (stringsPool scenario_image) redacted_name))"
    "newLinkedit s' (unat (cursor scenario_image) + 4) = 1"
    "\<forall>a. unat (cursor scenario_image) + 5 \<le> a \<longrightarrow> newLinkedit s' a = 0"
    "cursor s' = cursor scenario_image + word_of_nat (nlistSize scenario_image)"
    "symbolsCount s' = symbolsCount scenario_image + 1"
    "hasRedactedIndirect s'"
    by blast
  moreover have "fst (addString (stringsPool scenario_image) redacted_name) = 1"
    "cursor scenario_image = 0" "nlistSize scenario_image = 16" "symbolsCount scenario_image = 0"
    by (simp_all add: scenario_image_def StringPool_new_eq addString_def redacted_name_bytes
         nlistSize_def)
  ultimately have "\<exists>s'. searchRedactedSymbol (startSymbolEntries scenario_image) = Inr s' \<and>
      read32 (newLinkedit s') 0 = 1 \<and> newLinkedit s' 4 = 1 \<and> newLinkedit s' 5 = 0 \<and>
      map_of (pool (stringsPool s')) redacted_name = Some 1 \<and>
      cursor s' = 16 \<and> symbolsCount s' = 1 \<and> hasRedactedIndirect s'"
    by (intro exI [of _ s']) simp
  with dy fresh z show ?thesis
    by blast
qed

lemma publicLocalsLoop_unfold:
  "publicLocalsLoop strings k entry head n s =
     (if k = 0 then Inr (n, s)
      else
        (case cstring (fileBytes s) (strings + unat (read32 (fileBytes s) entry)) of
           None \<Rightarrow> Inl UnterminatedString
         | Some string \<Rightarrow>
             if string = redacted_name
             then publicLocalsLoop strings (k - 1) (entry + nlistSize s) head n s
             else publicLocalsLoop strings (k - 1) (entry + nlistSize s) (head + nlistSize s)
                    (n + 1)
                    ((copySymbolEntry s (fileBytes s) entry string head)
                       \<lparr>symbolsCount := symbolsCount s + 1\<rparr>)))"
  by (cases k) (simp_all split: option.splits)

lemma three_locals_scenario: "copyLocalSymbols three_locals_image = Inr after_three_locals"
  by (simp add: copyLocalSymbols_def copyPublicLocalSymbols_def copyRedactedLocalSymbols_def
        copySymbolEntry_def publicLocalsLoop_unfold
        three_locals_image_def after_three_locals_def after_imported_def after_exported_def
        after_probe_def scenario_image_def scenario_dysymtab_def
        scenario_reads scenario_names addString_def redacted_name_bytes nlistSize_def Let_def)

text \<open>
  Claim C7 as stated fails when no local is copied.  On the image whose only local is
  named \<^verbatim>\<open><redacted>\<close> and which has no symbols subcache, the pass copies nothing and
  returns the state unchanged: \<^verbatim>\<open>ilocalsym\<close> is still 2, not the running symbol count 1, and
  \<^verbatim>\<open>nlocalsym\<close> is still 1, not the total 0.
\<close>

theorem copyLocalSymbols_nothing_copied:
  "copyLocalSymbols redacted_local_image = Inr redacted_local_image \<and>
   dySymTab redacted_local_image
     = Some (0x10038, scenario_dysymtab\<lparr>ilocalsym := 2, nlocalsym := 1\<rparr>) \<and>
   ilocalsym (scenario_dysymtab\<lparr>ilocalsym := 2, nlocalsym := 1\<rparr>)
     \<noteq> symbolsCount redacted_local_image \<and>
   nlocalsym (scenario_dysymtab\<lparr>ilocalsym := 2, nlocalsym := 1\<rparr>) \<noteq> 0"
  by (simp add: copyLocalSymbols_def copyPublicLocalSymbols_def copyRedactedLocalSymbols_def
        publicLocalsLoop_unfold
        redacted_local_image_def after_probe_def scenario_image_def scenario_dysymtab_def
        scenario_reads scenario_names nlistSize_def Let_def)

theorem copyLocalSymbols_dysymtab_witness:
  "\<exists>s'. copyLocalSymbols three_locals_image = Inr s' \<and>
      symbolsCount three_locals_image = 1 \<and>
      symbolsCount s' - symbolsCount three_locals_image = 2 \<and>
      cursor s' = cursor three_locals_image + 16 * 2 \<and>
      dySymTab s' = Some (0x10038, scenario_dysymtab\<lparr>ilocalsym := 1, nlocalsym := 2\<rparr>)"
proof -
  have dy: "dySymTab three_locals_image
      = Some (0x10038, scenario_dysymtab\<lparr>ilocalsym := 0, nlocalsym := 3\<rparr>)"
    and sym: "symTab three_locals_image \<noteq> None
        \<or> nlocalsym (scenario_dysymtab\<lparr>ilocalsym := 0, nlocalsym := 3\<rparr>) = 0"
    and names: "\<forall>a. cstring (fileBytes three_locals_image) a \<noteq> None"
    and cache: "\<forall>sc. getSymbolsCache (dCtx three_locals_image) = Some sc
        \<longrightarrow> (\<forall>a. cstring (sc_file sc) a \<noteq> None)"
    by (simp_all add: three_locals_image_def after_probe_def scenario_image_def
          scenario_terminated)
  from copyLocalSymbols_dysymtab [OF dy sym names cache]
  obtain s' where run: "copyLocalSymbols three_locals_image = Inr s'"
    and cur: "cursor s' = cursor three_locals_image
        + word_of_nat (nlistSize three_locals_image)
          * (symbolsCount s' - symbolsCount three_locals_image)"
    and fields: "symbolsCount s' - symbolsCount three_locals_image \<noteq> 0 \<longrightarrow>
        dySymTab s' = Some (0x10038,
          scenario_dysymtab\<lparr>ilocalsym := 0, nlocalsym := 3\<rparr>
            \<lparr>ilocalsym := symbolsCount three_locals_image,
             nlocalsym := symbolsCount s' - symbolsCount three_locals_image\<rparr>)"
    by blast
  have s': "s' = after_three_locals"
    using run three_locals_scenario by simp
  have counts: "symbolsCount three_locals_image = 1" "symbolsCount after_three_locals = 3"
    "nlistSize three_locals_image = 16"
    by (simp_all add: three_locals_image_def after_three_locals_def after_imported_def
          after_exported_def after_probe_def scenario_image_def nlistSize_def)
  show ?thesis
    using run cur fields counts unfolding s'
    by (intro exI [of _ after_three_locals]) simp
qed

end
